theory Spec2Isabelle
  imports Main
begin

section \<open>The web security auditor of \<^verbatim>\<open>security_audit.py\<close>\<close>

text \<open>
  The script fetches a target over HTTP, inspects the response and prints what it
  finds. The model keeps the script's shape: every function of the script is a HOL
  function of the same name that returns the trace of what the call prints and which
  requests it issues, in order. What the network answers is an input of the model
  (an environment with one outcome per call site), and an exception is a value: a call
  ends by returning or by raising, and a run that raises stops with what it has printed.
  \<open>main\<close> starts from the line the user has typed, and \<^verbatim>\<open>print\<close> is taken to
  succeed.

  Text is a list of 8-bit characters: the Latin-1 range of Python's \<^verbatim>\<open>str\<close>.
\<close>

subsection \<open>Characters and strings\<close>

definition code :: "char \<Rightarrow> nat" where
  "code c = of_char c"

text \<open>\<^verbatim>\<open>str.isspace\<close>, also the class \<^verbatim>\<open>\s\<close> of \<^verbatim>\<open>re\<close> on \<^verbatim>\<open>str\<close> patterns.\<close>

definition is_space :: "char \<Rightarrow> bool" where
  "is_space c = (let n = code c in
     (9 \<le> n \<and> n \<le> 13) \<or> (28 \<le> n \<and> n \<le> 32) \<or> n = 133 \<or> n = 160)"

text \<open>\<^verbatim>\<open>str.lower\<close> on one character.\<close>

definition lower_char :: "char \<Rightarrow> char" where
  "lower_char c = (let n = code c in
     if (65 \<le> n \<and> n \<le> 90) \<or> (192 \<le> n \<and> n \<le> 222 \<and> n \<noteq> 215)
     then char_of (n + 32) else c)"

definition lower :: "string \<Rightarrow> string" where
  "lower s = map lower_char s"

text \<open>\<^verbatim>\<open>str.strip()\<close>: white space removed at both ends.\<close>

definition strip :: "string \<Rightarrow> string" where
  "strip s = rev (dropWhile is_space (rev (dropWhile is_space s)))"

text \<open>
  \<^verbatim>\<open>s.startswith(p)\<close>; with \<open>ci\<close> set, a literal of a pattern compiled with
  \<^verbatim>\<open>re.IGNORECASE\<close> (the literal \<open>p\<close> is written in lower case).
\<close>

fun match_lit :: "bool \<Rightarrow> string \<Rightarrow> string \<Rightarrow> bool" where
  "match_lit ci s [] = True"
| "match_lit ci [] (p # ps) = False"
| "match_lit ci (c # cs) (p # ps) =
     ((if ci then lower_char c = p else c = p) \<and> match_lit ci cs ps)"

definition startswith :: "string \<Rightarrow> string \<Rightarrow> bool" where
  "startswith s p = match_lit False s p"

text \<open>\<^verbatim>\<open>p in s\<close> for strings: \<open>p\<close> occurs in \<open>s\<close> as a contiguous run.\<close>

fun contains :: "string \<Rightarrow> string \<Rightarrow> bool" where
  "contains [] p = (p = [])"
| "contains (c # cs) p = (startswith (c # cs) p \<or> contains cs p)"

subsection \<open>Responses, exceptions and the network\<close>

text \<open>
  The exceptions \<^verbatim>\<open>requests.get\<close> can end with, and the \<open>ValueError\<close> that
  \<^verbatim>\<open>urlparse\<close> raises. \<open>SSLError\<close> is the only one an
  \<^verbatim>\<open>except requests.exceptions.SSLError\<close> clause catches; \<open>KeyboardInterrupt\<close> is
  the one an \<^verbatim>\<open>except Exception\<close> clause does not catch; a bare \<^verbatim>\<open>except:\<close>
  catches all of them.
\<close>

datatype exc_kind =
  SSLError | ConnectionError | Timeout | TooManyRedirects | ValueError | KeyboardInterrupt

datatype exc = Exc (kind: exc_kind) (message: string)

definition is_Exception :: "exc \<Rightarrow> bool" where
  "is_Exception e = (kind e \<noteq> KeyboardInterrupt)"

definition is_SSLError :: "exc \<Rightarrow> bool" where
  "is_SSLError e = (kind e = SSLError)"

record response =
  status_code :: int
  headers :: "(string \<times> string) list"
  body :: string

datatype probe = Response response | Raised exc

text \<open>
  \<^verbatim>\<open>response.headers\<close> is a case-insensitive dictionary: \<^verbatim>\<open>name in headers\<close> and
  \<^verbatim>\<open>headers[name]\<close> compare names without regard to case.
\<close>

definition header :: "response \<Rightarrow> string \<Rightarrow> string option" where
  "header r name = map_of (map (\<lambda>(k, v). (lower k, v)) (headers r)) (lower name)"

text \<open>
  The truth value of a response is its \<^verbatim>\<open>ok\<close> property: false exactly for the
  statuses \<^verbatim>\<open>raise_for_status\<close> raises for, 400 to 599. \<^verbatim>\<open>None\<close> is false.
\<close>

definition ok :: "response \<Rightarrow> bool" where
  "ok r = (\<not> (400 \<le> status_code r \<and> status_code r < 600))"

definition truthy :: "response option \<Rightarrow> bool" where
  "truthy ro = (case ro of None \<Rightarrow> False | Some r \<Rightarrow> ok r)"

text \<open>
  What a run meets outside the script. The outcome of each \<^verbatim>\<open>requests.get\<close>, by
  call site: the one of \<^verbatim>\<open>check_ssl_tls\<close>, the one of
  \<^verbatim>\<open>check_security_headers\<close>, and the one \<^verbatim>\<open>check_common_files\<close> makes for
  each relative path. And the verdict of the library function
  \<^verbatim>\<open>_check_bracketed_host\<close> on the text between the brackets of a host: the message
  of the \<^verbatim>\<open>ValueError\<close> it raises, or \<open>None\<close> when it returns. That function
  asks \<^verbatim>\<open>ipaddress\<close> and differs between releases of Python (older releases make
  no such check, which is the function that is \<open>None\<close> everywhere), so it is an input
  here.
\<close>

record env =
  tls_get :: probe
  primary_get :: probe
  file_get :: "string \<Rightarrow> probe"
  check_bracketed_host :: "string \<Rightarrow> string option"

subsection \<open>The trace of a run\<close>

datatype url_ref = Target | Joined string

text \<open>
  One constructor for each \<^verbatim>\<open>print\<close> of the script, holding the values the line
  interpolates, and \<open>Get\<close> for a call of \<^verbatim>\<open>requests.get\<close> with its time-out and
  \<^verbatim>\<open>allow_redirects\<close>. \<open>Banner\<close> stands for the three lines of a section title;
  \<open>ServerExposed\<close> and \<open>PoweredByExposed\<close> for the value line and the warning
  line printed together.
\<close>

datatype event =
    Get url_ref nat bool
  | Banner string
  | Starting string
  | TimeLine
  | Disclaimer
  | HttpWarning
  | HttpRecommendation
  | UsesHttps
  | CertValid
  | SslErrorLine string
  | PresentHeading
  | PresentHeader string string
  | MissingHeading
  | MissingHeader string string
  | CookieHeading
  | CookieSettings string
  | CookieMissing string
  | FetchError string
  | ExposedHeading
  | ExposedItem string int
  | NoExposed
  | Summary nat nat
  | CommentsFound nat
  | SensitiveCommentLine nat string
  | PlainComment nat string
  | InlineScripts nat
  | ManyInlineScripts
  | ExternalScripts nat
  | ExternalScript string string
  | FormsFound nat
  | FormNoCsrf nat
  | FormAction string
  | EmailsExposed nat
  | Email string
  | SecretsHeading
  | Secret string string
  | ServerExposed string
  | PoweredByExposed string
  | VersionsFound "string list"
  | Recommendation string

subsection \<open>\<^verbatim>\<open>check_common_files\<close>\<close>

definition common_files :: "string list" where
  "common_files =
    [''.git/config'', ''.env'', ''.env.local'', ''.env.production'', ''config.php'',
     ''wp-config.php'', ''.htaccess'', ''phpinfo.php'', ''admin'', ''administrator'',
     ''wp-admin'', ''phpmyadmin'', ''backup.zip'', ''backup.sql'', ''database.sql'',
     ''robots.txt'', ''sitemap.xml'', ''.DS_Store'', ''package.json'', ''composer.json'',
     ''.git/HEAD'']"

text \<open>The variables of the loop: the requests made so far, \<open>exposed\<close> and \<open>safe\<close>.\<close>

record files_state =
  requests :: "event list"
  exposed :: "(string \<times> int) list"
  safe :: nat

text \<open>
  The body of the loop. The request does not follow redirects; a status of 200 appends
  to \<open>exposed\<close>, any other status and any exception adds one to \<open>safe\<close>. The
  address of the request is \<^verbatim>\<open>urljoin(base_url, file)\<close>, written \<open>Joined file\<close>.
  \<^verbatim>\<open>urljoin\<close> parses the target with \<^verbatim>\<open>urlparse\<close>; \<open>main\<close> comes here
  only after \<^verbatim>\<open>check_ssl_tls\<close> has parsed the same text and returned, so the call
  returns here too, and the paths of the list hold no bracket.
\<close>

definition probe_file :: "(string \<Rightarrow> probe) \<Rightarrow> string \<Rightarrow> files_state \<Rightarrow> files_state" where
  "probe_file get file st =
     (let st' = st\<lparr>requests := requests st @ [Get (Joined file) 5 False]\<rparr> in
      case get file of
        Response r \<Rightarrow>
          if status_code r = 200
          then st'\<lparr>exposed := exposed st' @ [(file, status_code r)]\<rparr>
          else st'\<lparr>safe := safe st' + 1\<rparr>
      | Raised e \<Rightarrow> st'\<lparr>safe := safe st' + 1\<rparr>)"

fun probe_files :: "(string \<Rightarrow> probe) \<Rightarrow> string list \<Rightarrow> files_state \<Rightarrow> files_state" where
  "probe_files get [] st = st"
| "probe_files get (file # files) st = probe_files get files (probe_file get file st)"

definition files_report :: "string list \<Rightarrow> files_state \<Rightarrow> event list" where
  "files_report files st =
     (if exposed st \<noteq> []
      then ExposedHeading # map (\<lambda>(file, status). ExposedItem file status) (exposed st)
      else [NoExposed])
     @ [Summary (safe st) (length files)]"

definition check_common_files :: "env \<Rightarrow> event list" where
  "check_common_files e =
     (let st = probe_files (file_get e) common_files
                 \<lparr>requests = [], exposed = [], safe = 0\<rparr>
      in Banner ''EXPOSED FILES CHECK'' # requests st @ files_report common_files st)"

text \<open>The path answers 200 to the request.\<close>

definition answers_200 :: "(string \<Rightarrow> probe) \<Rightarrow> string \<Rightarrow> bool" where
  "answers_200 get file = (case get file of Response r \<Rightarrow> status_code r = 200 | Raised e \<Rightarrow> False)"

subsection \<open>The findings of a trace\<close>

text \<open>
  The script keeps no list of findings; it prints lines. What it prints to grade a line is
  one of three signs, the information sign, the warning sign and the cross mark of an
  error, and one of two words, \<^verbatim>\<open>WARNING\<close> and \<^verbatim>\<open>CRITICAL\<close>. \<open>marks\<close> gives
  the marks of the line an event stands for, as the \<^verbatim>\<open>print\<close> statement has them;
  a line of a list that is printed under a heading of its own (the missing headers, the
  secrets) has the marks of that heading.
\<close>

datatype mark = InfoSign | WarningSign | ErrorSign | WarningWord | CriticalWord

fun marks :: "event \<Rightarrow> mark list" where
  "marks (Banner title) = (if title = ''INFORMATION DISCLOSURE'' then [InfoSign] else [])"
| "marks Disclaimer = [WarningSign]"
| "marks HttpWarning = [WarningSign, WarningWord]"
| "marks (SslErrorLine msg) = [ErrorSign]"
| "marks MissingHeading = [WarningSign]"
| "marks (MissingHeader h d) = [WarningSign]"
| "marks (CookieMissing flag) = [WarningSign]"
| "marks (FetchError msg) = [ErrorSign]"
| "marks ExposedHeading = [WarningSign]"
| "marks (ExposedItem file status) = [WarningSign]"
| "marks (SensitiveCommentLine i cleaned) = [WarningSign]"
| "marks (PlainComment i cleaned) = [InfoSign]"
| "marks ManyInlineScripts = [WarningSign]"
| "marks (FormNoCsrf i) = [WarningSign]"
| "marks SecretsHeading = [WarningSign, CriticalWord]"
| "marks (Secret key_type shown) = [WarningSign, CriticalWord]"
| "marks (ServerExposed v) = [WarningSign]"
| "marks (PoweredByExposed v) = [WarningSign]"
| "marks (VersionsFound vs) = [WarningSign]"
| "marks _ = []"

text \<open>
  The severity a line shows is the strongest of its marks: the word \<^verbatim>\<open>CRITICAL\<close>,
  then the error sign, then the warning sign or the word \<^verbatim>\<open>WARNING\<close>, then the
  information sign. The script prints the word \<^verbatim>\<open>CRITICAL\<close> in one place, the
  heading of the secrets.
\<close>

datatype severity = Info | Warning | Error | Critical

definition shown_severity :: "mark list \<Rightarrow> severity" where
  "shown_severity ms =
     (if CriticalWord \<in> set ms then Critical
      else if ErrorSign \<in> set ms then Error
      else if WarningSign \<in> set ms \<or> WarningWord \<in> set ms then Warning
      else Info)"

text \<open>
  A finding is a line that reports a condition of the target. \<open>reported\<close> gives the
  category of the condition, which is the check that prints the line, and the evidence,
  which is the text of the response or of the failure that the line interpolates. Titles,
  headings, counts, the lines that report something as present or valid, the lines that
  list a value without a remark (a comment without keyword, a script, an action, an
  address) and the disclaimer report no condition. Neither does the line
  \<^verbatim>\<open>Error: ...\<close> of \<^verbatim>\<open>check_security_headers\<close>: it is printed for every
  exception of the fetch, whatever its cause, and says that the page could not be read.
  \<open>finding_of\<close> puts the two together: the condition a line reports, with the severity
  the line shows.
\<close>

datatype category =
    HeaderMissing | CookieFlag | ExposedFile | SensitiveComment | InlineScriptAdvisory
  | NoCsrfToken | ExposedSecret | WeakTls | InfoDisclosure

record finding =
  category :: category
  severity :: severity
  evidence :: string

definition Finding :: "category \<Rightarrow> severity \<Rightarrow> string \<Rightarrow> finding" where
  "Finding c s ev = \<lparr>category = c, severity = s, evidence = ev\<rparr>"

text \<open>How \<^verbatim>\<open>print\<close> shows a set of strings without quotes or backslashes.\<close>

fun join_repr :: "string list \<Rightarrow> string" where
  "join_repr [] = []"
| "join_repr [v] = [CHR 0x27] @ v @ [CHR 0x27]"
| "join_repr (v # w # vs) = [CHR 0x27] @ v @ [CHR 0x27] @ '', '' @ join_repr (w # vs)"

definition set_repr :: "string list \<Rightarrow> string" where
  "set_repr vs = ''{'' @ join_repr vs @ ''}''"

fun reported :: "event \<Rightarrow> (category \<times> string) option" where
  "reported HttpWarning = Some (WeakTls, [])"
| "reported (SslErrorLine msg) = Some (WeakTls, msg)"
| "reported (MissingHeader h d) = Some (HeaderMissing, h @ '' - '' @ d)"
| "reported (CookieMissing flag) = Some (CookieFlag, flag)"
| "reported (ExposedItem file status) = Some (ExposedFile, file)"
| "reported (SensitiveCommentLine i cleaned) = Some (SensitiveComment, cleaned)"
| "reported ManyInlineScripts = Some (InlineScriptAdvisory, [])"
| "reported (FormNoCsrf i) = Some (NoCsrfToken, [])"
| "reported (Secret key_type shown) = Some (ExposedSecret, key_type @ '': '' @ shown @ ''...'')"
| "reported (ServerExposed v) = Some (InfoDisclosure, v)"
| "reported (PoweredByExposed v) = Some (InfoDisclosure, v)"
| "reported (VersionsFound vs) = Some (InfoDisclosure, set_repr vs)"
| "reported _ = None"

definition finding_of :: "event \<Rightarrow> finding option" where
  "finding_of ev =
     map_option (\<lambda>(c, detail). Finding c (shown_severity (marks ev)) detail) (reported ev)"

definition findings :: "event list \<Rightarrow> finding list" where
  "findings tr = List.map_filter finding_of tr"

definition findings_in :: "category \<Rightarrow> event list \<Rightarrow> finding list" where
  "findings_in c tr = filter (\<lambda>f. category f = c) (findings tr)"

text \<open>The requests of a trace.\<close>

fun is_Get :: "event \<Rightarrow> bool" where
  "is_Get (Get u t r) = True"
| "is_Get _ = False"

definition network_calls :: "event list \<Rightarrow> nat" where
  "network_calls tr = length (filter is_Get tr)"

text \<open>How a call ends: it returns a value or an exception leaves it.\<close>

datatype 'a outcome = Returns 'a | Raises exc

subsection \<open>\<^verbatim>\<open>urlparse\<close>\<close>

text \<open>
  The scheme and the network location \<^verbatim>\<open>urllib.parse.urlparse\<close> gives: leading
  control characters and spaces and all tabs and line breaks are removed; the text before
  the first colon is the scheme, in lower case, when it starts with an ASCII letter and
  holds letters, digits, \<^verbatim>\<open>+\<close>, \<^verbatim>\<open>-\<close> and \<^verbatim>\<open>.\<close> only; the network location
  follows \<^verbatim>\<open>//\<close> and ends before the first \<^verbatim>\<open>/\<close>, \<^verbatim>\<open>?\<close> or \<^verbatim>\<open>#\<close>.

  \<^verbatim>\<open>urlparse\<close> does not return for every text. A network location that holds one of
  the brackets \<^verbatim>\<open>[\<close> and \<^verbatim>\<open>]\<close> without the other raises
  \<^verbatim>\<open>ValueError("Invalid IPv6 URL")\<close>; one that holds both is passed, from behind the
  first \<^verbatim>\<open>[\<close> to the next \<^verbatim>\<open>]\<close>, to \<^verbatim>\<open>_check_bracketed_host\<close>, which
  raises \<^verbatim>\<open>ValueError\<close> or returns (the first argument here). The third
  \<^verbatim>\<open>ValueError\<close> of \<^verbatim>\<open>urlparse\<close>, for a network location that changes under
  NFKC normalisation into one with \<^verbatim>\<open>/?#@:\<close>, does not occur for Latin-1 text.
\<close>

definition is_ascii_alpha :: "char \<Rightarrow> bool" where
  "is_ascii_alpha c = (let n = code c in (65 \<le> n \<and> n \<le> 90) \<or> (97 \<le> n \<and> n \<le> 122))"

definition is_digit :: "char \<Rightarrow> bool" where
  "is_digit c = (let n = code c in 48 \<le> n \<and> n \<le> 57)"

definition scheme_char :: "char \<Rightarrow> bool" where
  "scheme_char c = (is_ascii_alpha c \<or> is_digit c \<or> c \<in> set ''+-.'')"

definition clean_url :: "string \<Rightarrow> string" where
  "clean_url url =
     filter (\<lambda>c. c \<notin> set [CHR 0x09, CHR 0x0D, CHR 0x0A]) (dropWhile (\<lambda>c. code c \<le> 32) url)"

definition split_scheme :: "string \<Rightarrow> string \<times> string" where
  "split_scheme url =
     (let u = clean_url url; s = takeWhile (\<lambda>c. c \<noteq> CHR '':'') u in
      if s \<noteq> [] \<and> length s < length u \<and> is_ascii_alpha (hd s) \<and> list_all scheme_char s
      then (lower s, drop (Suc (length s)) u)
      else ([], u))"

record parse_result =
  scheme :: string
  netloc :: string

text \<open>\<^verbatim>\<open>netloc.partition('[')[2].partition(']')[0]\<close>.\<close>

definition bracketed_host :: "string \<Rightarrow> string" where
  "bracketed_host nl =
     takeWhile (\<lambda>c. c \<noteq> CHR 0x5D) (drop 1 (dropWhile (\<lambda>c. c \<noteq> CHR 0x5B) nl))"

definition urlparse :: "(string \<Rightarrow> string option) \<Rightarrow> string \<Rightarrow> parse_result outcome" where
  "urlparse check_host url =
     (let r = snd (split_scheme url);
          nl = (if startswith r ''//'' then takeWhile (\<lambda>c. c \<notin> set ''/?#'') (drop 2 r) else []);
          parsed = \<lparr>scheme = fst (split_scheme url), netloc = nl\<rparr>
      in if (CHR 0x5B \<in> set nl \<and> CHR 0x5D \<notin> set nl) \<or> (CHR 0x5D \<in> set nl \<and> CHR 0x5B \<notin> set nl)
         then Raises (Exc ValueError ''Invalid IPv6 URL'')
         else if CHR 0x5B \<in> set nl \<and> CHR 0x5D \<in> set nl then
           (case check_host (bracketed_host nl) of
              Some msg \<Rightarrow> Raises (Exc ValueError msg)
            | None \<Rightarrow> Returns parsed)
         else Returns parsed)"

text \<open>\<^verbatim>\<open>urlparse\<close> returns for the text.\<close>

definition accepted :: "(string \<Rightarrow> string option) \<Rightarrow> string \<Rightarrow> bool" where
  "accepted check_host url =
     (case urlparse check_host url of Returns parsed \<Rightarrow> True | Raises x \<Rightarrow> False)"

subsection \<open>\<^verbatim>\<open>check_ssl_tls\<close>\<close>

text \<open>
  The target is parsed behind the title, outside any \<^verbatim>\<open>try\<close>: a
  \<^verbatim>\<open>ValueError\<close> of \<^verbatim>\<open>urlparse\<close> leaves the function. Only the
  \<^verbatim>\<open>https\<close> branch makes a request, and its \<^verbatim>\<open>except\<close> clause names
  \<^verbatim>\<open>SSLError\<close> alone: any other exception of the request leaves the function.
\<close>

definition check_ssl_tls :: "string \<Rightarrow> env \<Rightarrow> event list \<times> unit outcome" where
  "check_ssl_tls url e =
     (let banner = Banner ''SSL/TLS ANALYSIS'' in
      case urlparse (check_bracketed_host e) url of
        Raises x \<Rightarrow> ([banner], Raises x)
      | Returns parsed \<Rightarrow>
          if scheme parsed = ''http'' then ([banner, HttpWarning, HttpRecommendation], Returns ())
          else if scheme parsed = ''https'' then
            (case tls_get e of
               Response r \<Rightarrow> ([banner, UsesHttps, Get Target 10 True, CertValid], Returns ())
             | Raised x \<Rightarrow>
                 if is_SSLError x
                 then ([banner, UsesHttps, Get Target 10 True, SslErrorLine (message x)],
                       Returns ())
                 else ([banner, UsesHttps, Get Target 10 True], Raises x))
          else ([banner], Returns ()))"

subsection \<open>\<^verbatim>\<open>check_security_headers\<close>\<close>

definition security_headers :: "(string \<times> string) list" where
  "security_headers =
    [(''Strict-Transport-Security'', ''HSTS - Forces HTTPS''),
     (''X-Frame-Options'', ''Prevents clickjacking''),
     (''X-Content-Type-Options'', ''Prevents MIME sniffing''),
     (''Content-Security-Policy'', ''Prevents XSS attacks''),
     (''X-XSS-Protection'', ''XSS filter (legacy)''),
     (''Referrer-Policy'', ''Controls referrer information''),
     (''Permissions-Policy'', ''Controls browser features'')]"

text \<open>The loop over the dictionary, with its two lists \<open>present\<close> and \<open>missing\<close>.\<close>

fun classify_headers ::
  "response \<Rightarrow> (string \<times> string) list \<Rightarrow> event list \<times> event list \<Rightarrow> event list \<times> event list" where
  "classify_headers r [] (present, missing) = (present, missing)"
| "classify_headers r ((h, description) # hs) (present, missing) =
     (case header r h of
        Some v \<Rightarrow> classify_headers r hs (present @ [PresentHeader h (take 50 v)], missing)
      | None \<Rightarrow> classify_headers r hs (present, missing @ [MissingHeader h description]))"

definition cookie_lines :: "response \<Rightarrow> event list" where
  "cookie_lines r =
     (case header r ''Set-Cookie'' of
        None \<Rightarrow> []
      | Some cookie \<Rightarrow>
          [CookieHeading, CookieSettings (take 100 cookie)]
          @ (if \<not> contains cookie ''Secure'' then [CookieMissing ''Secure''] else [])
          @ (if \<not> contains cookie ''HttpOnly'' then [CookieMissing ''HttpOnly''] else [])
          @ (if \<not> contains cookie ''SameSite'' then [CookieMissing ''SameSite''] else []))"

definition header_lines :: "response \<Rightarrow> event list" where
  "header_lines r =
     (let (present, missing) = classify_headers r security_headers ([], []) in
      (if present \<noteq> [] then PresentHeading # present else [])
      @ (if missing \<noteq> [] then MissingHeading # missing else [])
      @ cookie_lines r)"

text \<open>
  The whole body is under \<^verbatim>\<open>except Exception\<close>: a failed request prints the error
  and returns \<^verbatim>\<open>None\<close>, unless the exception is no \<^verbatim>\<open>Exception\<close>.
\<close>

definition check_security_headers :: "env \<Rightarrow> event list \<times> response option outcome" where
  "check_security_headers e =
     (let start = [Banner ''SECURITY HEADERS ANALYSIS'', Get Target 10 True] in
      case primary_get e of
        Response r \<Rightarrow> (start @ header_lines r, Returns (Some r))
      | Raised x \<Rightarrow>
          if is_Exception x then (start @ [FetchError (message x)], Returns None)
          else (start, Raises x))"

subsection \<open>The patterns of \<^verbatim>\<open>analyze_html_content\<close>\<close>

text \<open>
  Each \<^verbatim>\<open>re.findall\<close> of the script is a function that scans the text from left
  to right, takes the match the pattern has at the leftmost position and goes on behind
  it. Every pattern here has at most one way to match at a position, or a fixed order in
  which its ways are tried, and the functions follow that order.

  \<open>find_lit ci p s\<close> looks for the first occurrence of the literal \<open>p\<close> in \<open>s\<close>: the
  text before it and the text behind it.
\<close>

fun find_lit :: "bool \<Rightarrow> string \<Rightarrow> string \<Rightarrow> (string \<times> string) option" where
  "find_lit ci p [] = (if p = [] then Some ([], []) else None)"
| "find_lit ci p (c # cs) =
     (if match_lit ci (c # cs) p then Some ([], drop (length p) (c # cs))
      else map_option (\<lambda>(front, behind). (c # front, behind)) (find_lit ci p cs))"

lemma match_lit_length: "match_lit ci s p \<Longrightarrow> length p \<le> length s"
  by (induction ci s p rule: match_lit.induct) auto

lemma find_lit_length:
  "find_lit ci p s = Some (front, behind) \<Longrightarrow>
   length front + length p + length behind = length s"
proof (induction s arbitrary: front)
  case Nil
  then show ?case by (simp split: if_splits)
next
  case (Cons c cs)
  show ?case
  proof (cases "match_lit ci (c # cs) p")
    case True
    with Cons.prems match_lit_length [OF True] show ?thesis by auto
  next
    case False
    with Cons.prems obtain b where "find_lit ci p cs = Some (b, behind)" and "front = c # b"
      by auto
    with Cons.IH [of b] show ?thesis by simp
  qed
qed

text \<open>\<^verbatim>\<open><!--(.*?)-->\<close> with \<^verbatim>\<open>re.DOTALL\<close>: from an opening mark to the next closing mark.\<close>

function comments_of :: "string \<Rightarrow> string list" where
  "comments_of html =
     (case find_lit False ''<!--'' html of
        None \<Rightarrow> []
      | Some (front, r) \<Rightarrow>
          (case find_lit False ''-->'' r of
             None \<Rightarrow> []
           | Some (comment, behind) \<Rightarrow> comment # comments_of behind))"
  by pat_completeness auto
termination
  by (relation "measure length") (auto dest!: find_lit_length)

declare comments_of.simps [simp del]

text \<open>
  \<^verbatim>\<open><tag[^>]*>(.*?)</tag>\<close> with \<^verbatim>\<open>re.DOTALL\<close>: the opening literal, on to the
  first \<^verbatim>\<open>>\<close>, and from there to the next closing literal.
\<close>

function tag_blocks :: "bool \<Rightarrow> string \<Rightarrow> string \<Rightarrow> string \<Rightarrow> string list" where
  "tag_blocks ci opn cls html =
     (case find_lit ci opn html of
        None \<Rightarrow> []
      | Some (front, r1) \<Rightarrow>
          (case find_lit False ''>'' r1 of
             None \<Rightarrow> []
           | Some (attrs, r2) \<Rightarrow>
               (case find_lit ci cls r2 of
                  None \<Rightarrow> []
                | Some (block, behind) \<Rightarrow> block # tag_blocks ci opn cls behind)))"
  by pat_completeness auto
termination
  by (relation "measure (\<lambda>(ci, opn, cls, html). length html)") (auto dest!: find_lit_length)

declare tag_blocks.simps [simp del]

definition is_quote :: "char \<Rightarrow> bool" where
  "is_quote c = (c = CHR 0x22 \<or> c = CHR 0x27)"

text \<open>
  \<^verbatim>\<open>["\']([^"\']{n,})["\']\<close> at the start of \<open>s\<close>: a quote, all the characters up
  to the next quote (at least \<open>n\<close> of them), and that quote. The value and the text
  behind the closing quote.
\<close>

definition quoted :: "nat \<Rightarrow> string \<Rightarrow> (string \<times> string) option" where
  "quoted n s =
     (case s of
        [] \<Rightarrow> None
      | q # r \<Rightarrow>
          if is_quote q then
            (let v = takeWhile (\<lambda>c. \<not> is_quote c) r; r' = dropWhile (\<lambda>c. \<not> is_quote c) r
             in if n \<le> length v \<and> r' \<noteq> [] then Some (v, tl r') else None)
          else None)"

lemma quoted_length: "quoted n s = Some (v, behind) \<Longrightarrow> length v + length behind + 2 = length s"
proof -
  assume a: "quoted n s = Some (v, behind)"
  then obtain q r where s: "s = q # r" by (cases s) (auto simp: quoted_def)
  from a s have v: "v = takeWhile (\<lambda>c. \<not> is_quote c) r"
    and b: "behind = tl (dropWhile (\<lambda>c. \<not> is_quote c) r)"
    and ne: "dropWhile (\<lambda>c. \<not> is_quote c) r \<noteq> []"
    by (auto simp: quoted_def Let_def split: if_splits)
  have "length (takeWhile (\<lambda>c. \<not> is_quote c) r) + length (dropWhile (\<lambda>c. \<not> is_quote c) r) = length r"
    by (metis length_append takeWhile_dropWhile_id)
  with v b ne s show ?thesis by (cases "dropWhile (\<lambda>c. \<not> is_quote c) r") auto
qed

text \<open>
  \<^verbatim>\<open>[^>]*src=["\']([^"\']+)["\']\<close> at the start of \<open>s\<close>. The star is greedy: the
  longest run of characters other than \<^verbatim>\<open>>\<close> is tried first, then the shorter ones.
\<close>

fun src_attr :: "string \<Rightarrow> (string \<times> string) option" where
  "src_attr [] = None"
| "src_attr (c # cs) =
     (case (if c = CHR 0x3E then None else src_attr cs) of
        Some m \<Rightarrow> Some m
      | None \<Rightarrow> if startswith (c # cs) ''src='' then quoted 1 (drop 4 (c # cs)) else None)"

lemma src_attr_length: "src_attr s = Some (v, behind) \<Longrightarrow> length behind < length s"
proof (induction s)
  case Nil
  then show ?case by simp
next
  case (Cons c cs)
  show ?case
  proof (cases "if c = CHR 0x3E then None else src_attr cs")
    case (Some m)
    with Cons.prems have "src_attr cs = Some (v, behind)" by (auto split: if_splits)
    with Cons.IH show ?thesis by simp
  next
    case None
    with Cons.prems have "quoted 1 (drop 4 (c # cs)) = Some (v, behind)"
      by (auto split: if_splits)
    from quoted_length [OF this] show ?thesis by simp
  qed
qed

text \<open>\<^verbatim>\<open><script[^>]*src=["\']([^"\']+)["\']\<close>, case-sensitive.\<close>

function external_scripts_of :: "string \<Rightarrow> string list" where
  "external_scripts_of [] = []"
| "external_scripts_of (c # cs) =
     (if startswith (c # cs) ''<script'' then
        (case src_attr (drop 7 (c # cs)) of
           Some (v, behind) \<Rightarrow> v # external_scripts_of behind
         | None \<Rightarrow> external_scripts_of cs)
      else external_scripts_of cs)"
  by pat_completeness auto
termination
  by (relation "measure length") (auto dest!: src_attr_length)

declare external_scripts_of.simps [simp del]

text \<open>\<^verbatim>\<open>re.search(r'action=["\']([^"\']+)["\']', form, re.IGNORECASE)\<close>: the first match.\<close>

fun action_of :: "string \<Rightarrow> string option" where
  "action_of [] = None"
| "action_of (c # cs) =
     (if match_lit True (c # cs) ''action='' then
        (case quoted 1 (drop 7 (c # cs)) of
           Some (v, behind) \<Rightarrow> Some v
         | None \<Rightarrow> action_of cs)
      else action_of cs)"

text \<open>
  \<^verbatim>\<open>(api[_-]?key|token|secret|password)\<close> with \<^verbatim>\<open>re.IGNORECASE\<close> at the start of
  \<open>s\<close>: the length of the name.
\<close>

definition key_name :: "string \<Rightarrow> nat option" where
  "key_name s =
     (if match_lit True s ''api'' then
        (if match_lit False (drop 3 s) ''_'' \<or> match_lit False (drop 3 s) ''-'' then
           (if match_lit True (drop 4 s) ''key'' then Some 7 else None)
         else if match_lit True (drop 3 s) ''key'' then Some 6 else None)
      else if match_lit True s ''token'' then Some 5
      else if match_lit True s ''secret'' then Some 6
      else if match_lit True s ''password'' then Some 8
      else None)"

text \<open>\<^verbatim>\<open>["\']?\<close>: one quote is passed over when there is one.\<close>

definition skip_quote :: "string \<Rightarrow> string" where
  "skip_quote s = (case s of [] \<Rightarrow> [] | q # r \<Rightarrow> if is_quote q then r else q # r)"

text \<open>\<^verbatim>\<open>\s*[:=]\s*\<close>: the text behind it.\<close>

definition separator :: "string \<Rightarrow> string option" where
  "separator s =
     (case dropWhile is_space s of
        [] \<Rightarrow> None
      | d # r \<Rightarrow> if d = CHR '':'' \<or> d = CHR ''='' then Some (dropWhile is_space r) else None)"

text \<open>
  \<^verbatim>\<open>(api[_-]?key|token|secret|password)["\']?\s*[:=]\s*["\']([^"\']{20,})["\']\<close>
  at the start of \<open>s\<close>: the two groups and the text behind the match.
\<close>

definition secret_at :: "string \<Rightarrow> ((string \<times> string) \<times> string) option" where
  "secret_at s =
     (case key_name s of
        None \<Rightarrow> None
      | Some n \<Rightarrow>
          (case separator (skip_quote (drop n s)) of
             None \<Rightarrow> None
           | Some r \<Rightarrow>
               (case quoted 20 r of
                  None \<Rightarrow> None
                | Some (v, behind) \<Rightarrow> Some ((take n s, v), behind))))"

lemma skip_quote_length: "length (skip_quote s) \<le> length s"
  by (cases s) (auto simp: skip_quote_def)

lemma separator_length: "separator s = Some r \<Longrightarrow> length r < length s"
proof -
  assume a: "separator s = Some r"
  then obtain d r' where d: "dropWhile is_space s = d # r'" and r: "r = dropWhile is_space r'"
    by (auto simp: separator_def split: list.splits if_splits)
  have "length r \<le> length r'" using r by (simp add: length_dropWhile_le)
  moreover have "length (d # r') \<le> length s" using d length_dropWhile_le [of is_space s] by simp
  ultimately show ?thesis by simp
qed

lemma secret_at_length: "secret_at s = Some (kv, behind) \<Longrightarrow> length behind < length s"
proof -
  assume a: "secret_at s = Some (kv, behind)"
  then obtain n r v where n: "key_name s = Some n"
    and r: "separator (skip_quote (drop n s)) = Some r"
    and q: "quoted 20 r = Some (v, behind)"
    by (auto simp: secret_at_def split: option.splits)
  from separator_length [OF r] skip_quote_length [of "drop n s"] have "length r < length s"
    by simp
  with quoted_length [OF q] show ?thesis by simp
qed

function potential_keys_of :: "string \<Rightarrow> (string \<times> string) list" where
  "potential_keys_of [] = []"
| "potential_keys_of (c # cs) =
     (case secret_at (c # cs) of
        Some (kv, behind) \<Rightarrow> kv # potential_keys_of behind
      | None \<Rightarrow> potential_keys_of cs)"
  by pat_completeness auto
termination
  by (relation "measure length") (auto dest!: secret_at_length)

declare potential_keys_of.simps [simp del]

text \<open>
  The e-mail pattern
  \<^verbatim>\<open>\b[A-Za-z0-9._%+-]+@[A-Za-z0-9.-]+\.[A-Z|a-z]{2,}\b\<close>.
  A word character (\<^verbatim>\<open>\w\<close>) is a letter, a digit or the underscore; \<^verbatim>\<open>\b\<close>
  holds between two positions of which exactly one holds a word character.
\<close>

definition is_alnum :: "char \<Rightarrow> bool" where
  "is_alnum c = (is_ascii_alpha c \<or> is_digit c)"

definition is_word :: "char \<Rightarrow> bool" where
  "is_word c = (let n = code c in
     is_alnum c \<or> c = CHR ''_'' \<or> n \<in> set [170, 178, 179, 181, 185, 186, 188, 189, 190]
     \<or> (192 \<le> n \<and> n \<noteq> 215 \<and> n \<noteq> 247))"

definition peek :: "string \<Rightarrow> char option" where
  "peek s = (case s of [] \<Rightarrow> None | c # cs \<Rightarrow> Some c)"

definition last_char :: "string \<Rightarrow> char option" where
  "last_char s = (if s = [] then None else Some (last s))"

definition boundary :: "char option \<Rightarrow> char option \<Rightarrow> bool" where
  "boundary prev behind =
     ((case prev of None \<Rightarrow> False | Some c \<Rightarrow> is_word c)
      \<noteq> (case behind of None \<Rightarrow> False | Some c \<Rightarrow> is_word c))"

definition local_char :: "char \<Rightarrow> bool" where
  "local_char c = (is_alnum c \<or> c \<in> set ''._%+-'')"

definition domain_char :: "char \<Rightarrow> bool" where
  "domain_char c = (is_alnum c \<or> c \<in> set ''.-'')"

definition tld_char :: "char \<Rightarrow> bool" where
  "tld_char c = (is_ascii_alpha c \<or> c = CHR ''|'')"

text \<open>
  \<^verbatim>\<open>[A-Z|a-z]{2,}\b\<close> at the start of \<open>t\<close>, of whose characters the first \<open>n\<close>
  are in the class: the longest length first, then the shorter ones down to two.
\<close>

fun tld_match :: "string \<Rightarrow> nat \<Rightarrow> nat option" where
  "tld_match t n =
     (if n < 2 then None
      else if boundary (last_char (take n t)) (peek (drop n t)) then Some n
      else tld_match t (n - 1))"

declare tld_match.simps [simp del]

text \<open>
  \<^verbatim>\<open>[A-Za-z0-9.-]+\.[A-Z|a-z]{2,}\b\<close> at the start of \<open>d\<close>, of whose characters
  the first \<open>k\<close> are in the first class: that class takes the longest run first, then
  the shorter ones down to one. The length of the match.
\<close>

fun domain_match :: "string \<Rightarrow> nat \<Rightarrow> nat option" where
  "domain_match d k =
     (if k = 0 then None
      else
        (case (if peek (drop k d) = Some (CHR ''.'')
               then tld_match (drop (Suc k) d) (length (takeWhile tld_char (drop (Suc k) d)))
               else None) of
           Some m \<Rightarrow> Some (k + 1 + m)
         | None \<Rightarrow> domain_match d (k - 1)))"

declare domain_match.simps [simp del]

text \<open>
  The whole pattern at the start of \<open>s\<close>, \<open>prev\<close> being the character in front of
  it: the length of the match.
\<close>

definition email_at :: "char option \<Rightarrow> string \<Rightarrow> nat option" where
  "email_at prev s =
     (let l = takeWhile local_char s; r = drop (length l) s in
      if boundary prev (peek s) \<and> l \<noteq> [] \<and> peek r = Some (CHR ''@'') then
        (case domain_match (tl r) (length (takeWhile domain_char (tl r))) of
           Some n \<Rightarrow> Some (length l + 1 + n)
         | None \<Rightarrow> None)
      else None)"

lemma email_at_positive: "email_at prev s = Some n \<Longrightarrow> 0 < n"
  by (auto simp: email_at_def Let_def split: if_splits option.splits)

function emails_of :: "char option \<Rightarrow> string \<Rightarrow> string list" where
  "emails_of prev [] = []"
| "emails_of prev (c # cs) =
     (case email_at prev (c # cs) of
        Some n \<Rightarrow> take n (c # cs) # emails_of (last_char (take n (c # cs))) (drop n (c # cs))
      | None \<Rightarrow> emails_of (Some c) cs)"
  by pat_completeness auto
termination
  by (relation "measure (\<lambda>(prev, s). length s)") (auto dest!: email_at_positive)

declare emails_of.simps [simp del]

text \<open>
  \<^verbatim>\<open>[0-9]+\.[0-9]+\.[0-9]+\<close> at the start of \<open>s\<close>: the number and the text behind it.
\<close>

definition digits_dot :: "string \<Rightarrow> (string \<times> string) option" where
  "digits_dot s =
     (let a = takeWhile is_digit s in
      if a \<noteq> [] \<and> peek (dropWhile is_digit s) = Some (CHR ''.'')
      then Some (a @ ''.'', tl (dropWhile is_digit s)) else None)"

definition semver :: "string \<Rightarrow> (string \<times> string) option" where
  "semver s =
     (case digits_dot s of
        None \<Rightarrow> None
      | Some (a, r1) \<Rightarrow>
          (case digits_dot r1 of
             None \<Rightarrow> None
           | Some (b, r2) \<Rightarrow>
               if takeWhile is_digit r2 \<noteq> []
               then Some (a @ b @ takeWhile is_digit r2, dropWhile is_digit r2)
               else None))"

text \<open>
  \<^verbatim>\<open>version["\']?\s*[:=]\s*["\']?([0-9]+\.[0-9]+\.[0-9]+)\<close> with
  \<^verbatim>\<open>re.IGNORECASE\<close> at the start of \<open>s\<close>.
\<close>

definition version_at :: "string \<Rightarrow> (string \<times> string) option" where
  "version_at s =
     (if match_lit True s ''version'' then
        (case separator (skip_quote (drop 7 s)) of
           None \<Rightarrow> None
         | Some r \<Rightarrow> semver (skip_quote r))
      else None)"

lemma digits_dot_length: "digits_dot s = Some (a, r) \<Longrightarrow> length r < length s"
proof -
  assume a: "digits_dot s = Some (a, r)"
  obtain d where d: "d = dropWhile is_digit s" by simp
  from a d have r: "r = tl d" and "peek d = Some (CHR ''.'')"
    by (simp_all add: digits_dot_def Let_def split: if_splits)
  then have "length r < length d" by (cases d) (simp_all add: peek_def)
  with d length_dropWhile_le [of is_digit s] show ?thesis by simp
qed

lemma semver_length: "semver s = Some (v, behind) \<Longrightarrow> length behind < length s"
proof -
  assume "semver s = Some (v, behind)"
  then obtain a r1 b r2 where 1: "digits_dot s = Some (a, r1)"
    and 2: "digits_dot r1 = Some (b, r2)" and 3: "behind = dropWhile is_digit r2"
    by (auto simp: semver_def split: option.splits if_splits)
  from digits_dot_length [OF 1] digits_dot_length [OF 2] 3 length_dropWhile_le [of is_digit r2]
  show ?thesis by simp
qed

lemma version_at_length: "version_at s = Some (v, behind) \<Longrightarrow> length behind < length s"
proof -
  assume "version_at s = Some (v, behind)"
  then obtain r where 1: "separator (skip_quote (drop 7 s)) = Some r"
    and 2: "semver (skip_quote r) = Some (v, behind)"
    by (auto simp: version_at_def split: option.splits if_splits)
  from separator_length [OF 1] skip_quote_length [of "drop 7 s"] have "length r < length s"
    by simp
  with semver_length [OF 2] skip_quote_length [of r] show ?thesis by simp
qed

function versions_of :: "string \<Rightarrow> string list" where
  "versions_of [] = []"
| "versions_of (c # cs) =
     (case version_at (c # cs) of
        Some (v, behind) \<Rightarrow> v # versions_of behind
      | None \<Rightarrow> versions_of cs)"
  by pat_completeness auto
termination
  by (relation "measure length") (auto dest!: version_at_length)

declare versions_of.simps [simp del]

subsection \<open>\<^verbatim>\<open>analyze_html_content\<close>\<close>

text \<open>
  \<^verbatim>\<open>list(set(xs))\<close> lists the distinct elements of \<open>xs\<close> in the order in which
  the set iterates. For strings that order follows their hashes, which Python draws anew
  for each process; so the order is an input of the run, and all that is known of it is
  that it lists each element once.
\<close>

type_synonym set_order = "string list \<Rightarrow> string list"

definition valid_order :: "set_order \<Rightarrow> bool" where
  "valid_order ord = (\<forall>xs. distinct (ord xs) \<and> set (ord xs) = set xs)"

definition sensitive_keywords :: "string list" where
  "sensitive_keywords = [''password'', ''key'', ''secret'', ''token'', ''api'']"

text \<open>\<^verbatim>\<open>any(keyword in cleaned.lower() for keyword in [...])\<close>.\<close>

definition has_keyword :: "string \<Rightarrow> bool" where
  "has_keyword cleaned = list_ex (\<lambda>keyword. contains (lower cleaned) keyword) sensitive_keywords"

text \<open>\<^verbatim>\<open>comment.strip()[:100]\<close>.\<close>

definition cleaned :: "string \<Rightarrow> string" where
  "cleaned comment = take 100 (strip comment)"

definition comment_line :: "nat \<times> string \<Rightarrow> event" where
  "comment_line ic =
     (if has_keyword (cleaned (snd ic))
      then SensitiveCommentLine (fst ic) (cleaned (snd ic))
      else PlainComment (fst ic) (cleaned (snd ic)))"

definition comment_lines :: "string \<Rightarrow> event list" where
  "comment_lines html =
     (let comments = comments_of html in
      if comments \<noteq> []
      then CommentsFound (length comments) # map comment_line (List.enumerate 1 (take 5 comments))
      else [])"

definition inline_script_lines :: "string \<Rightarrow> event list" where
  "inline_script_lines html =
     (let inline_scripts = tag_blocks False ''<script'' ''</script>'' html in
      InlineScripts (length inline_scripts)
      # (if length inline_scripts > 10 then [ManyInlineScripts] else []))"

text \<open>
  The loop over the external scripts parses each address before it prints the line. The
  call is under no \<^verbatim>\<open>try\<close>: at the first address for which \<^verbatim>\<open>urlparse\<close>
  raises, the loop ends with that exception, behind the lines of the scripts before it.
\<close>

definition external_script_line :: "parse_result \<Rightarrow> string \<Rightarrow> event" where
  "external_script_line parsed script =
     ExternalScript (if netloc parsed \<noteq> [] then netloc parsed else ''relative path'')
       (take 60 script)"

fun external_script_loop ::
  "(string \<Rightarrow> string option) \<Rightarrow> string list \<Rightarrow> event list \<times> unit outcome" where
  "external_script_loop check_host [] = ([], Returns ())"
| "external_script_loop check_host (script # scripts) =
     (case urlparse check_host script of
        Raises x \<Rightarrow> ([], Raises x)
      | Returns parsed \<Rightarrow>
          (external_script_line parsed script # fst (external_script_loop check_host scripts),
           snd (external_script_loop check_host scripts)))"

definition external_script_lines ::
  "(string \<Rightarrow> string option) \<Rightarrow> string \<Rightarrow> event list \<times> unit outcome" where
  "external_script_lines check_host html =
     (let external_scripts = external_scripts_of html in
      if external_scripts \<noteq> []
      then (ExternalScripts (length external_scripts)
              # fst (external_script_loop check_host (take 10 external_scripts)),
            snd (external_script_loop check_host (take 10 external_scripts)))
      else ([], Returns ()))"

text \<open>\<^verbatim>\<open>'csrf' not in form.lower() and 'token' not in form.lower()\<close>.\<close>

definition lacks_csrf :: "string \<Rightarrow> bool" where
  "lacks_csrf form = (\<not> contains (lower form) ''csrf'' \<and> \<not> contains (lower form) ''token'')"

definition form_line :: "nat \<times> string \<Rightarrow> event list" where
  "form_line iform =
     (let form = snd iform in
      (if lacks_csrf form then [FormNoCsrf (fst iform)] else [])
      @ (if contains (lower form) ''action='' then
           (case action_of form of Some action \<Rightarrow> [FormAction action] | None \<Rightarrow> [])
         else []))"

definition form_lines :: "string \<Rightarrow> event list" where
  "form_lines html =
     (let forms = tag_blocks True ''<form'' ''</form>'' html in
      if forms \<noteq> []
      then FormsFound (length forms) # concat (map form_line (List.enumerate 1 forms))
      else [])"

definition email_lines :: "set_order \<Rightarrow> string \<Rightarrow> event list" where
  "email_lines ord html =
     (let emails = emails_of None html in
      if emails \<noteq> []
      then EmailsExposed (length (remdups emails)) # map Email (take 5 (ord emails))
      else [])"

definition secret_lines :: "string \<Rightarrow> event list" where
  "secret_lines html =
     (let potential_keys = potential_keys_of html in
      if potential_keys \<noteq> []
      then SecretsHeading
           # map (\<lambda>(key_type, key_value). Secret key_type (take 20 key_value)) potential_keys
      else [])"

text \<open>
  The sub-checks run in the order of the script. When the loop over the external scripts
  ends with an exception, the exception leaves the function: the forms, the e-mail
  addresses and the secrets are not looked at.
\<close>

definition analyze_html_content ::
  "set_order \<Rightarrow> (string \<Rightarrow> string option) \<Rightarrow> response option \<Rightarrow> event list \<times> unit outcome" where
  "analyze_html_content ord check_host response =
     (let banner = Banner ''HTML CONTENT ANALYSIS'' in
      case response of
        None \<Rightarrow> ([banner], Returns ())
      | Some r \<Rightarrow>
          if \<not> ok r then ([banner], Returns ())
          else
            (let html = body r;
                 front = banner # comment_lines html @ inline_script_lines html
                         @ fst (external_script_lines check_host html)
             in case snd (external_script_lines check_host html) of
                  Raises x \<Rightarrow> (front, Raises x)
                | Returns u \<Rightarrow>
                    (front @ form_lines html @ email_lines ord html @ secret_lines html,
                     Returns ())))"

subsection \<open>\<^verbatim>\<open>check_information_disclosure\<close>\<close>

definition check_information_disclosure :: "set_order \<Rightarrow> response option \<Rightarrow> event list" where
  "check_information_disclosure ord response =
     Banner ''INFORMATION DISCLOSURE''
     # (case response of
          None \<Rightarrow> []
        | Some r \<Rightarrow>
            if \<not> ok r then []
            else
              (case header r ''Server'' of Some v \<Rightarrow> [ServerExposed v] | None \<Rightarrow> [])
              @ (case header r ''X-Powered-By'' of Some v \<Rightarrow> [PoweredByExposed v] | None \<Rightarrow> [])
              @ (let versions = versions_of (body r) in
                 if versions \<noteq> [] then [VersionsFound (ord versions)] else []))"

subsection \<open>\<^verbatim>\<open>generate_recommendations\<close> and \<^verbatim>\<open>main\<close>\<close>

definition recommendations :: "string list" where
  "recommendations =
    [''1. Enable all missing security headers (HSTS, CSP, X-Frame-Options)'',
     ''2. Implement Content Security Policy (CSP) to prevent XSS'',
     ''3. Add CSRF tokens to all forms'',
     ''4. Use HTTPS everywhere (enable HSTS)'',
     ''5. Set Secure, HttpOnly, and SameSite flags on cookies'',
     ''6. Remove or protect sensitive files (.git, .env, backups)'',
     ''7. Hide server version information'',
     ''8. Implement rate limiting on forms and API endpoints'',
     ''9. Add input validation and sanitization'',
     ''10. Regular security audits and penetration testing'',
     ''11. Keep all dependencies and frameworks updated'',
     ''12. Implement proper authentication and authorization'',
     ''13. Use secure password hashing (bcrypt, Argon2)'',
     ''14. Enable audit logging for security events'',
     ''15. Regular backup and disaster recovery plan'']"

definition generate_recommendations :: "event list" where
  "generate_recommendations = Banner ''SECURITY RECOMMENDATIONS'' # map Recommendation recommendations"

text \<open>
  \<open>main\<close> takes the line the user types. The checks run in the order of the script; an
  exception that leaves a check ends the run there, with what was printed so far.
  \<^verbatim>\<open>check_common_files\<close>, \<^verbatim>\<open>check_information_disclosure\<close> and
  \<^verbatim>\<open>generate_recommendations\<close> always return.
\<close>

definition target_url :: "string \<Rightarrow> string" where
  "target_url typed =
     (let url = strip typed in if \<not> startswith url ''http'' then ''https://'' @ url else url)"

definition main :: "set_order \<Rightarrow> string \<Rightarrow> env \<Rightarrow> event list \<times> unit outcome" where
  "main ord typed e =
     (let url = target_url typed; start = [Starting url, TimeLine] in
      case check_ssl_tls url e of
        (t1, Raises x) \<Rightarrow> (start @ t1, Raises x)
      | (t1, Returns u) \<Rightarrow>
          (case check_security_headers e of
             (t2, Raises x) \<Rightarrow> (start @ t1 @ t2, Raises x)
           | (t2, Returns response) \<Rightarrow>
               (case analyze_html_content ord (check_bracketed_host e) response of
                  (t4, Raises x) \<Rightarrow> (start @ t1 @ t2 @ check_common_files e @ t4, Raises x)
                | (t4, Returns u') \<Rightarrow>
                    (start @ t1 @ t2 @ check_common_files e @ t4
                     @ check_information_disclosure ord response @ generate_recommendations
                     @ [Banner ''SECURITY AUDIT COMPLETE'', Disclaimer],
                     Returns ()))))"

subsection \<open>Reading a trace\<close>

text \<open>The three attributes \<^verbatim>\<open>check_security_headers\<close> looks for in a cookie.\<close>

definition cookie_flags :: "string list" where
  "cookie_flags = [''Secure'', ''HttpOnly'', ''SameSite'']"


text \<open>
  The paths reported as exposed, and the two numbers of the summary line: \<open>safe\<close>
  and the number of paths checked.
\<close>

definition exposed_files :: "event list \<Rightarrow> string list" where
  "exposed_files tr = [file. ExposedItem file status \<leftarrow> tr]"

definition summary_lines :: "event list \<Rightarrow> (nat \<times> nat) list" where
  "summary_lines tr = [(s, t). Summary s t \<leftarrow> tr]"

text \<open>
  \<^verbatim>\<open>urlparse\<close> returns for each of the external scripts the loop of
  \<^verbatim>\<open>analyze_html_content\<close> goes through, the first ten of the page.
\<close>

definition scripts_parse :: "(string \<Rightarrow> string option) \<Rightarrow> string \<Rightarrow> bool" where
  "scripts_parse check_host html =
     list_all (accepted check_host) (take 10 (external_scripts_of html))"

text \<open>The names the secret pattern accepts, in lower case.\<close>

definition key_names :: "string list" where
  "key_names = [''api_key'', ''api-key'', ''apikey'', ''token'', ''secret'', ''password'']"

text \<open>
  The findings whose evidence stays within 100 characters, or that belong to the two kinds
  whose evidence the script prints in full: the message of a TLS failure and the
  information-disclosure lines (header values and the set of version numbers).
\<close>

definition capped :: "finding \<Rightarrow> bool" where
  "capped f = (category f = InfoDisclosure \<or> (category f = WeakTls \<and> severity f = Error)
     \<or> length (evidence f) \<le> 100)"

text \<open>
  The e-mail addresses a trace lists, and a trace with the two places blanked that depend
  on the order in which a set iterates: the address of an e-mail line and the version
  numbers of the version line.
\<close>

fun blank_order :: "event \<Rightarrow> event" where
  "blank_order (Email x) = Email []"
| "blank_order (VersionsFound vs) = VersionsFound []"
| "blank_order ev = ev"

definition email_notes :: "event list \<Rightarrow> string list" where
  "email_notes tr = [x. Email x \<leftarrow> tr]"

subsection \<open>Example runs\<close>

text \<open>
  The library of an older release, which accepts every text between brackets. No address
  of the examples holds both brackets, so the examples run the same way with every
  library.
\<close>

definition lenient :: "string \<Rightarrow> string option" where
  "lenient host = None"

definition not_found :: probe where
  "not_found = Response \<lparr>status_code = 404, headers = [], body = []\<rparr>"

definition found :: probe where
  "found = Response \<lparr>status_code = 200, headers = [], body = []\<rparr>"

text \<open>
  A site that serves \<^verbatim>\<open>.env\<close> and \<^verbatim>\<open>robots.txt\<close>, times out on
  \<^verbatim>\<open>admin\<close> and answers 404 for every other path.
\<close>

definition leaky_files :: "string \<Rightarrow> probe" where
  "leaky_files file =
     (if file = ''.env'' \<or> file = ''robots.txt'' then found
      else if file = ''admin'' then Raised (Exc Timeout ''timed out'')
      else not_found)"

definition leaky_env :: env where
  "leaky_env =
     \<lparr>tls_get = found, primary_get = found, file_get = leaky_files,
     check_bracketed_host = lenient\<rparr>"

text \<open>
  The page of the end-to-end scenario: one header, \<^verbatim>\<open>Content-Type\<close>, and a form
  with one input. Every path answers 404 and the handshake succeeds.
\<close>

definition scenario_page :: response where
  "scenario_page = \<lparr>status_code = 200, headers = [(''Content-Type'', ''text/html'')],
     body = ''<form><input name='' @ [CHR 0x22] @ ''x'' @ [CHR 0x22] @ ''></form>''\<rparr>"

definition scenario_env :: env where
  "scenario_env =
     \<lparr>tls_get = found, primary_get = Response scenario_page, file_get = (\<lambda>f. not_found),
      check_bracketed_host = lenient\<rparr>"

text \<open>A page that sends \<^verbatim>\<open>Strict-Transport-Security\<close>, its name in lower case.\<close>

definition hsts_page :: response where
  "hsts_page = \<lparr>status_code = 200,
     headers = [(''strict-transport-security'', ''max-age=31536000''), (''Server'', ''nginx'')],
     body = []\<rparr>"

definition hsts_env :: env where
  "hsts_env =
     \<lparr>tls_get = found, primary_get = Response hsts_page, file_get = (\<lambda>f. not_found),
      check_bracketed_host = lenient\<rparr>"

text \<open>A host that refuses every connection, and one whose certificate is rejected.\<close>

definition unreachable :: probe where
  "unreachable = Raised (Exc ConnectionError ''connection refused'')"

definition unreachable_env :: env where
  "unreachable_env =
     \<lparr>tls_get = unreachable, primary_get = unreachable, file_get = (\<lambda>f. unreachable),
      check_bracketed_host = lenient\<rparr>"

definition bad_certificate_env :: env where
  "bad_certificate_env =
     \<lparr>tls_get = Raised (Exc SSLError ''certificate verify failed''),
      primary_get = Raised (Exc SSLError ''certificate verify failed''),
      file_get = (\<lambda>f. not_found),
      check_bracketed_host = lenient\<rparr>"

text \<open>The same page sent with status 404 and with the status 999 some sites answer with.\<close>

definition error_page :: response where
  "error_page = \<lparr>status_code = 404, headers = [(''Server'', ''nginx/1.2.3'')],
     body = ''<form></form>''\<rparr>"

definition blocked_page :: response where
  "blocked_page = \<lparr>status_code = 999, headers = [(''Server'', ''nginx/1.2.3'')],
     body = ''<form></form>''\<rparr>"

text \<open>Pages with one comment each, and one with six; pages with a secret in the text.\<close>

definition leaked_comment_page :: response where
  "leaked_comment_page = \<lparr>status_code = 200, headers = [], body = ''<!-- api_key leaked -->''\<rparr>"

definition layout_comment_page :: response where
  "layout_comment_page = \<lparr>status_code = 200, headers = [], body = ''<!-- layout fix -->''\<rparr>"

definition six_comments_page :: response where
  "six_comments_page = \<lparr>status_code = 200, headers = [],
     body = ''<!--a--><!--b--><!--c--><!--d--><!--e--><!-- password: hunter2 -->''\<rparr>"

definition token_page :: response where
  "token_page = \<lparr>status_code = 200, headers = [],
     body = ''token='' @ [CHR 0x22] @ ''abcdefghijklmnopqrstuvwxyz'' @ [CHR 0x22]\<rparr>"

definition short_token_page :: response where
  "short_token_page = \<lparr>status_code = 200, headers = [],
     body = ''token='' @ [CHR 0x22] @ ''abcdefghijklmnopqrst'' @ [CHR 0x22]\<rparr>"

text \<open>
  A certificate failure with a message of 101 characters, and a form whose content holds
  an \<^verbatim>\<open>action=\<close> attribute of 101 characters.
\<close>

definition long_message_env :: env where
  "long_message_env =
     \<lparr>tls_get = Raised (Exc SSLError (replicate 101 (CHR ''x''))), primary_get = unreachable,
      file_get = (\<lambda>f. unreachable),
      check_bracketed_host = lenient\<rparr>"

definition long_action_page :: response where
  "long_action_page = \<lparr>status_code = 200, headers = [],
     body = ''<form><button formaction='' @ [CHR 0x22] @ replicate 101 (CHR ''a'') @ [CHR 0x22]
       @ ''>go</button></form>''\<rparr>"

text \<open>
  Pages with the same secret behind an external script: one whose address has a host in
  brackets that are not closed, and one whose address is well formed.
\<close>

definition bracket_script_page :: response where
  "bracket_script_page = \<lparr>status_code = 200, headers = [],
     body = ''<script src='' @ [CHR 0x22] @ ''http://[cdn/x.js'' @ [CHR 0x22] @ ''></script>''
       @ ''token='' @ [CHR 0x22] @ ''abcdefghijklmnopqrstuvwxyz'' @ [CHR 0x22]\<rparr>"

definition cdn_script_page :: response where
  "cdn_script_page = \<lparr>status_code = 200, headers = [],
     body = ''<script src='' @ [CHR 0x22] @ ''https://cdn.example/x.js'' @ [CHR 0x22] @ ''></script>''
       @ ''token='' @ [CHR 0x22] @ ''abcdefghijklmnopqrstuvwxyz'' @ [CHR 0x22]\<rparr>"

text \<open>A page with two e-mail addresses.\<close>

definition two_emails_page :: response where
  "two_emails_page = \<lparr>status_code = 200, headers = [], body = ''a@x.io b@y.io''\<rparr>"

definition two_emails_env :: env where
  "two_emails_env =
     \<lparr>tls_get = found, primary_get = Response two_emails_page, file_get = (\<lambda>f. not_found),
      check_bracketed_host = lenient\<rparr>"

section \<open>Properties\<close>

subsection \<open>The loop over the paths\<close>

lemma probe_files_exposed:
  "exposed (probe_files get files st) =
     exposed st @ map (\<lambda>f. (f, 200)) (filter (answers_200 get) files)"
  by (induction files arbitrary: st)
     (auto simp: probe_file_def answers_200_def Let_def split: probe.splits)

lemma probe_files_safe:
  "safe (probe_files get files st) =
     safe st + length (filter (\<lambda>f. \<not> answers_200 get f) files)"
  by (induction files arbitrary: st)
     (auto simp: probe_file_def answers_200_def Let_def split: probe.splits)

lemma probe_files_requests:
  "requests (probe_files get files st) =
     requests st @ map (\<lambda>f. Get (Joined f) 5 False) files"
  by (induction files arbitrary: st)
     (auto simp: probe_file_def Let_def split: probe.splits)

lemma length_common_files: "length common_files = 21"
  by (simp add: common_files_def)

subsection \<open>Findings of a trace\<close>

text \<open>The finding of each line, with the severity worked out from its marks.\<close>

lemma finding_of_simps [simp]:
  "finding_of HttpWarning = Some (Finding WeakTls Warning [])"
  "finding_of (SslErrorLine msg) = Some (Finding WeakTls Error msg)"
  "finding_of (MissingHeader h d) = Some (Finding HeaderMissing Warning (h @ '' - '' @ d))"
  "finding_of (CookieMissing flag) = Some (Finding CookieFlag Warning flag)"
  "finding_of (ExposedItem file status) = Some (Finding ExposedFile Warning file)"
  "finding_of (SensitiveCommentLine i c) = Some (Finding SensitiveComment Warning c)"
  "finding_of ManyInlineScripts = Some (Finding InlineScriptAdvisory Warning [])"
  "finding_of (FormNoCsrf i) = Some (Finding NoCsrfToken Warning [])"
  "finding_of (Secret key_type shown) =
     Some (Finding ExposedSecret Critical (key_type @ '': '' @ shown @ ''...''))"
  "finding_of (ServerExposed v) = Some (Finding InfoDisclosure Warning v)"
  "finding_of (PoweredByExposed v) = Some (Finding InfoDisclosure Warning v)"
  "finding_of (VersionsFound vs) = Some (Finding InfoDisclosure Warning (set_repr vs))"
  by (simp_all add: finding_of_def shown_severity_def)

lemma finding_of_none [simp]:
  "finding_of (Get u t a) = None"
  "finding_of (Banner title) = None"
  "finding_of (Starting url) = None"
  "finding_of TimeLine = None"
  "finding_of Disclaimer = None"
  "finding_of HttpRecommendation = None"
  "finding_of UsesHttps = None"
  "finding_of CertValid = None"
  "finding_of PresentHeading = None"
  "finding_of (PresentHeader h v) = None"
  "finding_of MissingHeading = None"
  "finding_of CookieHeading = None"
  "finding_of (CookieSettings cookie) = None"
  "finding_of (FetchError msg) = None"
  "finding_of ExposedHeading = None"
  "finding_of NoExposed = None"
  "finding_of (Summary n m) = None"
  "finding_of (CommentsFound n) = None"
  "finding_of (PlainComment i c) = None"
  "finding_of (InlineScripts n) = None"
  "finding_of (ExternalScripts n) = None"
  "finding_of (ExternalScript domain script) = None"
  "finding_of (FormsFound n) = None"
  "finding_of (FormAction action) = None"
  "finding_of (EmailsExposed n) = None"
  "finding_of (Email x) = None"
  "finding_of SecretsHeading = None"
  "finding_of (Recommendation item) = None"
  by (simp_all add: finding_of_def)

text \<open>Every line that reports a condition has a mark.\<close>

lemma reported_marks: "reported ev = Some cd \<Longrightarrow> marks ev \<noteq> []"
  by (cases ev) simp_all

lemma findings_Nil [simp]: "findings [] = []"
  by (simp add: findings_def)

lemma findings_Cons:
  "findings (ev # tr) = (case finding_of ev of None \<Rightarrow> findings tr | Some f \<Rightarrow> f # findings tr)"
  by (cases "finding_of ev") (simp_all add: findings_def)

lemma findings_append [simp]: "findings (tr @ tr') = findings tr @ findings tr'"
  by (simp add: findings_def map_filter_def)

lemma findings_in_Nil [simp]: "findings_in c [] = []"
  by (simp add: findings_in_def)

lemma findings_in_Cons:
  "findings_in c (ev # tr) =
     (case finding_of ev of
        None \<Rightarrow> findings_in c tr
      | Some f \<Rightarrow> if category f = c then f # findings_in c tr else findings_in c tr)"
  by (cases "finding_of ev") (simp_all add: findings_in_def findings_Cons)

lemma findings_in_append [simp]:
  "findings_in c (tr @ tr') = findings_in c tr @ findings_in c tr'"
  by (simp add: findings_in_def)

lemma category_Finding [simp]: "category (Finding c s ev) = c"
  and severity_Finding [simp]: "severity (Finding c s ev) = s"
  and evidence_Finding [simp]: "evidence (Finding c s ev) = ev"
  by (simp_all add: Finding_def)

lemma findings_no_finding:
  "(\<And>ev. ev \<in> set tr \<Longrightarrow> finding_of ev = None) \<Longrightarrow> findings tr = []"
  by (induction tr) (simp_all add: findings_Cons)

lemma findings_map:
  "(\<And>x. finding_of (g x) = Some (h x)) \<Longrightarrow> findings (map g xs) = map h xs"
  by (induction xs) (simp_all add: findings_Cons)

lemma filter_category_map:
  "(\<And>x. category (g x) = c') \<Longrightarrow>
   filter (\<lambda>f. category f = c) (map g xs) = (if c' = c then map g xs else [])"
  by (induction xs) simp_all

subsection \<open>The file-exposure check\<close>

lemma exposed_files_append [simp]: "exposed_files (a @ b) = exposed_files a @ exposed_files b"
  by (simp add: exposed_files_def)

lemma summary_lines_append [simp]: "summary_lines (a @ b) = summary_lines a @ summary_lines b"
  by (simp add: summary_lines_def)

lemma exposed_files_gets [simp]: "exposed_files (map (\<lambda>f. Get (Joined f) 5 False) fs) = []"
  by (induction fs) (simp_all add: exposed_files_def)

lemma exposed_files_items [simp]:
  "exposed_files (map (\<lambda>(file, status). ExposedItem file status) xs) = map fst xs"
  by (induction xs) (auto simp: exposed_files_def)

lemma summary_lines_gets [simp]: "summary_lines (map (\<lambda>f. Get (Joined f) 5 False) fs) = []"
  by (induction fs) (simp_all add: summary_lines_def)

lemma summary_lines_items [simp]:
  "summary_lines (map (\<lambda>(file, status). ExposedItem file status) xs) = []"
  by (induction xs) (auto simp: summary_lines_def)

lemma filter_Get_gets [simp]:
  "filter is_Get (map (\<lambda>f. Get (Joined f) 5 False) fs) = map (\<lambda>f. Get (Joined f) 5 False) fs"
  by (induction fs) simp_all

lemma filter_Get_items [simp]:
  "filter is_Get (map (\<lambda>(file, status). ExposedItem file status) xs) = []"
  by (induction xs) auto

lemma exposed_files_Nil [simp]: "exposed_files [] = []"
  by (simp add: exposed_files_def)

lemma summary_lines_Nil [simp]: "summary_lines [] = []"
  by (simp add: summary_lines_def)

lemma exposed_files_Cons:
  "exposed_files (ev # tr) =
     (case ev of ExposedItem file status \<Rightarrow> [file] | _ \<Rightarrow> []) @ exposed_files tr"
  by (simp add: exposed_files_def)

lemma summary_lines_Cons:
  "summary_lines (ev # tr) = (case ev of Summary s t \<Rightarrow> [(s, t)] | _ \<Rightarrow> []) @ summary_lines tr"
  by (simp add: summary_lines_def)

lemma exposed_files_missing [simp]: "exposed_files (map (\<lambda>(h, d). MissingHeader h d) hs) = []"
  by (induction hs) (auto simp: exposed_files_def)

lemma summary_lines_missing [simp]: "summary_lines (map (\<lambda>(h, d). MissingHeader h d) hs) = []"
  by (induction hs) (auto simp: summary_lines_def)

lemma exposed_files_recommendations [simp]: "exposed_files (map Recommendation rs) = []"
  by (induction rs) (simp_all add: exposed_files_def)

lemma summary_lines_recommendations [simp]: "summary_lines (map Recommendation rs) = []"
  by (induction rs) (simp_all add: summary_lines_def)

text \<open>What \<^verbatim>\<open>check_common_files\<close> prints, from the answers alone.\<close>

lemma check_common_files_trace:
  "check_common_files e =
     Banner ''EXPOSED FILES CHECK''
     # map (\<lambda>f. Get (Joined f) 5 False) common_files
     @ (if filter (answers_200 (file_get e)) common_files \<noteq> []
        then ExposedHeading
             # map (\<lambda>(file, status). ExposedItem file status)
                 (map (\<lambda>f. (f, 200)) (filter (answers_200 (file_get e)) common_files))
        else [NoExposed])
     @ [Summary (length (filter (\<lambda>f. \<not> answers_200 (file_get e) f) common_files))
          (length common_files)]"
  by (simp add: check_common_files_def files_report_def Let_def probe_files_exposed
        probe_files_safe probe_files_requests)

text \<open>
  C1. Whatever the 21 requests answer, \<^verbatim>\<open>check_common_files\<close> prints one summary
  line, with \<open>safe\<close> and the number of paths checked, and \<open>exposed + safe = checked\<close>:
  the paths reported as exposed are exactly those whose request answered with status 200,
  in the order of the list, and \<open>safe\<close> counts all the others, those that answered with
  another status and those whose request raised an exception alike. Every request is made
  with \<^verbatim>\<open>allow_redirects=False\<close>.
\<close>

theorem file_exposure_counts:
  "summary_lines (check_common_files e) =
     [(length (filter (\<lambda>f. \<not> answers_200 (file_get e) f) common_files), length common_files)]
   \<and> exposed_files (check_common_files e) = filter (answers_200 (file_get e)) common_files
   \<and> length (filter (answers_200 (file_get e)) common_files)
       + length (filter (\<lambda>f. \<not> answers_200 (file_get e) f) common_files)
       = length common_files
   \<and> filter is_Get (check_common_files e) = map (\<lambda>f. Get (Joined f) 5 False) common_files"
proof -
  have "length (filter (answers_200 (file_get e)) common_files)
       + length (filter (\<lambda>f. \<not> answers_200 (file_get e) f) common_files)
       = length common_files"
    by (rule sum_length_filter_compl)
  then show ?thesis
    by (simp add: check_common_files_trace exposed_files_def summary_lines_def comp_def)
qed

theorem file_exposure_counts_witness:
  "(summary_lines (check_common_files leaky_env) =
      [(length (filter (\<lambda>f. \<not> answers_200 (file_get leaky_env) f) common_files),
        length common_files)]
    \<and> exposed_files (check_common_files leaky_env)
        = filter (answers_200 (file_get leaky_env)) common_files
    \<and> length (filter (answers_200 (file_get leaky_env)) common_files)
        + length (filter (\<lambda>f. \<not> answers_200 (file_get leaky_env) f) common_files)
        = length common_files
    \<and> filter is_Get (check_common_files leaky_env)
        = map (\<lambda>f. Get (Joined f) 5 False) common_files)
   \<and> summary_lines (check_common_files leaky_env) = [(19, 21)]
   \<and> exposed_files (check_common_files leaky_env) = [''.env'', ''robots.txt'']"
proof (intro conjI)
  show "summary_lines (check_common_files leaky_env) = [(19, 21)]"
    by code_simp
  show "exposed_files (check_common_files leaky_env) = [''.env'', ''robots.txt'']"
    by code_simp
qed (simp_all only: file_exposure_counts [of leaky_env])


text \<open>The findings of \<^verbatim>\<open>check_common_files\<close>: one for each path that answered 200.\<close>

lemma findings_gets: "findings (map (\<lambda>f. Get (Joined f) 5 False) fs) = []"
  by (rule findings_no_finding) auto

lemma findings_check_common_files:
  "findings (check_common_files e) =
     map (\<lambda>f. Finding ExposedFile Warning f) (filter (answers_200 (file_get e)) common_files)"
proof -
  have "findings (map (\<lambda>(file, status). ExposedItem file status)
                 (map (\<lambda>f. (f, 200)) (filter (answers_200 (file_get e)) common_files)))
        = map (\<lambda>f. Finding ExposedFile Warning f) (filter (answers_200 (file_get e)) common_files)"
    unfolding map_map by (rule findings_map) simp
  then show ?thesis
    by (simp add: check_common_files_trace findings_Cons findings_gets del: map_map)
qed


subsection \<open>The TLS check\<close>

lemma urlparse_raises: "urlparse check_host url = Raises x \<Longrightarrow> kind x = ValueError"
  by (auto simp: urlparse_def Let_def split: if_splits option.splits)

text \<open>
  The library's verdict on bracketed hosts matters only for a text that holds both
  brackets.
\<close>

lemma set_split_scheme: "set (snd (split_scheme url)) \<subseteq> set url"
proof -
  have "set (clean_url url) \<subseteq> set url"
    by (auto simp: clean_url_def dest: set_dropWhileD)
  then show ?thesis
    by (auto simp: split_scheme_def Let_def dest: in_set_dropD)
qed

lemma urlparse_without_brackets:
  assumes "CHR 0x5B \<notin> set url \<or> CHR 0x5D \<notin> set url"
  shows "urlparse check_host url = urlparse check_host' url"
proof -
  define nl where "nl = (if startswith (snd (split_scheme url)) ''//''
     then takeWhile (\<lambda>c. c \<notin> set ''/?#'') (drop 2 (snd (split_scheme url))) else [])"
  have "set nl \<subseteq> set url"
    using set_split_scheme [of url] unfolding nl_def
    by (auto dest!: set_takeWhileD in_set_dropD)
  with assms have n: "\<not> (CHR 0x5B \<in> set nl \<and> CHR 0x5D \<in> set nl)"
    by blast
  have "urlparse c url =
     (if (CHR 0x5B \<in> set nl \<and> CHR 0x5D \<notin> set nl) \<or> (CHR 0x5D \<in> set nl \<and> CHR 0x5B \<notin> set nl)
      then Raises (Exc ValueError ''Invalid IPv6 URL'')
      else if CHR 0x5B \<in> set nl \<and> CHR 0x5D \<in> set nl then
        (case c (bracketed_host nl) of
           Some msg \<Rightarrow> Raises (Exc ValueError msg)
         | None \<Rightarrow> Returns \<lparr>scheme = fst (split_scheme url), netloc = nl\<rparr>)
      else Returns \<lparr>scheme = fst (split_scheme url), netloc = nl\<rparr>)" for c
    unfolding urlparse_def Let_def nl_def ..
  with n show ?thesis by simp
qed

lemma findings_check_ssl_tls:
  "findings (fst (check_ssl_tls url e)) =
     (case urlparse (check_bracketed_host e) url of
        Raises x \<Rightarrow> []
      | Returns parsed \<Rightarrow>
          if scheme parsed = ''http'' then [Finding WeakTls Warning []]
          else if scheme parsed = ''https'' then
            (case tls_get e of
               Response r \<Rightarrow> []
             | Raised x \<Rightarrow> if is_SSLError x then [Finding WeakTls Error (message x)] else [])
          else [])"
  by (auto simp: check_ssl_tls_def Let_def findings_Cons split: probe.splits outcome.splits)

text \<open>
  C8, as the code has it. The check parses the target behind its title. When
  \<^verbatim>\<open>urlparse\<close> raises (a host with one bracket and not the other, or a host between
  brackets that the library rejects) the check has printed its title alone and ends with
  that \<^verbatim>\<open>ValueError\<close>: no finding, no request. When \<^verbatim>\<open>urlparse\<close> returns
  and the scheme is \<^verbatim>\<open>http\<close>, the check prints one \<open>WeakTls\<close> finding, makes
  no request and returns; the finding shows as a warning, its line has the warning sign and
  reads WARNING. When \<^verbatim>\<open>urlparse\<close> returns and the scheme is \<^verbatim>\<open>https\<close>,
  the check makes one request: one that succeeds gives no \<open>WeakTls\<close> finding, one
  that fails with an \<^verbatim>\<open>SSLError\<close> gives exactly one, whose evidence is the message
  of the failure and whose line has the error sign. The word CRITICAL is on neither line.
\<close>

theorem weak_tls_findings:
  "(\<forall>x. urlparse (check_bracketed_host e) url = Raises x \<longrightarrow>
        check_ssl_tls url e = ([Banner ''SSL/TLS ANALYSIS''], Raises x) \<and> kind x = ValueError)
   \<and> (\<forall>parsed. urlparse (check_bracketed_host e) url = Returns parsed \<and> scheme parsed = ''http'' \<longrightarrow>
        findings_in WeakTls (fst (check_ssl_tls url e)) = [Finding WeakTls Warning []]
        \<and> network_calls (fst (check_ssl_tls url e)) = 0
        \<and> snd (check_ssl_tls url e) = Returns ())
   \<and> (\<forall>parsed. urlparse (check_bracketed_host e) url = Returns parsed \<and> scheme parsed = ''https'' \<longrightarrow>
        network_calls (fst (check_ssl_tls url e)) = 1
        \<and> (\<forall>r. tls_get e = Response r \<longrightarrow>
              findings_in WeakTls (fst (check_ssl_tls url e)) = []
              \<and> snd (check_ssl_tls url e) = Returns ())
        \<and> (\<forall>x. tls_get e = Raised x \<and> is_SSLError x \<longrightarrow>
              findings_in WeakTls (fst (check_ssl_tls url e))
                = [Finding WeakTls Error (message x)]
              \<and> snd (check_ssl_tls url e) = Returns ()))
   \<and> shown_severity (marks HttpWarning) = Warning
   \<and> shown_severity (marks (SslErrorLine msg)) = Error"
proof -
  have 1: "check_ssl_tls url e = ([Banner ''SSL/TLS ANALYSIS''], Raises x) \<and> kind x = ValueError"
    if "urlparse (check_bracketed_host e) url = Raises x" for x
    using that urlparse_raises [OF that] by (simp add: check_ssl_tls_def Let_def)
  have 2: "findings_in WeakTls (fst (check_ssl_tls url e)) = [Finding WeakTls Warning []]
        \<and> network_calls (fst (check_ssl_tls url e)) = 0
        \<and> snd (check_ssl_tls url e) = Returns ()"
    if "urlparse (check_bracketed_host e) url = Returns parsed" and "scheme parsed = ''http''"
    for parsed
    using that by (simp add: check_ssl_tls_def Let_def findings_in_Cons network_calls_def)
  have 3: "network_calls (fst (check_ssl_tls url e)) = 1
        \<and> (\<forall>r. tls_get e = Response r \<longrightarrow>
              findings_in WeakTls (fst (check_ssl_tls url e)) = []
              \<and> snd (check_ssl_tls url e) = Returns ())
        \<and> (\<forall>x. tls_get e = Raised x \<and> is_SSLError x \<longrightarrow>
              findings_in WeakTls (fst (check_ssl_tls url e))
                = [Finding WeakTls Error (message x)]
              \<and> snd (check_ssl_tls url e) = Returns ())"
    if "urlparse (check_bracketed_host e) url = Returns parsed" and "scheme parsed = ''https''"
    for parsed
    using that
    by (cases "tls_get e")
       (simp_all add: check_ssl_tls_def Let_def findings_in_Cons network_calls_def)
  have 4: "shown_severity (marks HttpWarning) = Warning"
    and 5: "shown_severity (marks (SslErrorLine msg)) = Error"
    by (simp_all add: shown_severity_def)
  from 1 2 3 4 5 show ?thesis by blast
qed

theorem weak_tls_findings_witness:
  "urlparse (check_bracketed_host unreachable_env) ''http://example.com''
     = Returns \<lparr>scheme = ''http'', netloc = ''example.com''\<rparr>
   \<and> findings_in WeakTls (fst (check_ssl_tls ''http://example.com'' unreachable_env))
       = [Finding WeakTls Warning []]
   \<and> network_calls (fst (check_ssl_tls ''http://example.com'' unreachable_env)) = 0
   \<and> snd (check_ssl_tls ''http://example.com'' unreachable_env) = Returns ()
   \<and> urlparse (check_bracketed_host scenario_env) ''https://example.test''
       = Returns \<lparr>scheme = ''https'', netloc = ''example.test''\<rparr>
   \<and> tls_get scenario_env = Response \<lparr>status_code = 200, headers = [], body = []\<rparr>
   \<and> network_calls (fst (check_ssl_tls ''https://example.test'' scenario_env)) = 1
   \<and> findings_in WeakTls (fst (check_ssl_tls ''https://example.test'' scenario_env)) = []
   \<and> urlparse (check_bracketed_host bad_certificate_env) ''https://example.test''
       = Returns \<lparr>scheme = ''https'', netloc = ''example.test''\<rparr>
   \<and> tls_get bad_certificate_env = Raised (Exc SSLError ''certificate verify failed'')
   \<and> is_SSLError (Exc SSLError ''certificate verify failed'')
   \<and> findings_in WeakTls (fst (check_ssl_tls ''https://example.test'' bad_certificate_env))
       = [Finding WeakTls Error ''certificate verify failed'']
   \<and> urlparse (check_bracketed_host scenario_env) ''https://[example.test''
       = Raises (Exc ValueError ''Invalid IPv6 URL'')
   \<and> check_ssl_tls ''https://[example.test'' scenario_env
       = ([Banner ''SSL/TLS ANALYSIS''], Raises (Exc ValueError ''Invalid IPv6 URL''))"
proof -
  have http: "urlparse (check_bracketed_host unreachable_env) ''http://example.com''
     = Returns \<lparr>scheme = ''http'', netloc = ''example.com''\<rparr>"
    by code_simp
  have https: "urlparse (check_bracketed_host scenario_env) ''https://example.test''
       = Returns \<lparr>scheme = ''https'', netloc = ''example.test''\<rparr>"
    by code_simp
  have https': "urlparse (check_bracketed_host bad_certificate_env) ''https://example.test''
       = Returns \<lparr>scheme = ''https'', netloc = ''example.test''\<rparr>"
    by code_simp
  have bracket: "urlparse (check_bracketed_host scenario_env) ''https://[example.test''
       = Raises (Exc ValueError ''Invalid IPv6 URL'')"
    by code_simp
  have ok: "tls_get scenario_env = Response \<lparr>status_code = 200, headers = [], body = []\<rparr>"
    by (simp add: scenario_env_def found_def)
  have bad: "tls_get bad_certificate_env = Raised (Exc SSLError ''certificate verify failed'')"
    by (simp add: bad_certificate_env_def)
  have ssl: "is_SSLError (Exc SSLError ''certificate verify failed'')"
    by (simp add: is_SSLError_def)
  have s1: "scheme \<lparr>scheme = ''http'', netloc = ''example.com''\<rparr> = ''http''"
    and s2: "scheme \<lparr>scheme = ''https'', netloc = ''example.test''\<rparr> = ''https''"
    by simp_all
  from http s1 weak_tls_findings [of unreachable_env "''http://example.com''"]
  have 1: "findings_in WeakTls (fst (check_ssl_tls ''http://example.com'' unreachable_env))
             = [Finding WeakTls Warning []]
           \<and> network_calls (fst (check_ssl_tls ''http://example.com'' unreachable_env)) = 0
           \<and> snd (check_ssl_tls ''http://example.com'' unreachable_env) = Returns ()"
    by blast
  from https s2 ok weak_tls_findings [of scenario_env "''https://example.test''"]
  have 2: "network_calls (fst (check_ssl_tls ''https://example.test'' scenario_env)) = 1
           \<and> findings_in WeakTls (fst (check_ssl_tls ''https://example.test'' scenario_env)) = []"
    by blast
  from https' s2 bad ssl weak_tls_findings [of bad_certificate_env "''https://example.test''"]
  have 3: "findings_in WeakTls (fst (check_ssl_tls ''https://example.test'' bad_certificate_env))
             = [Finding WeakTls Error (message (Exc SSLError ''certificate verify failed''))]"
    by blast
  from bracket weak_tls_findings [of scenario_env "''https://[example.test''"]
  have 4: "check_ssl_tls ''https://[example.test'' scenario_env
       = ([Banner ''SSL/TLS ANALYSIS''], Raises (Exc ValueError ''Invalid IPv6 URL''))"
    by blast
  from http https https' bracket ok bad ssl 1 2 3 4 show ?thesis by simp
qed

text \<open>
  The claim speaks of every target whose scheme is \<^verbatim>\<open>http\<close> and gives its finding
  the severity \<open>Critical\<close>. For the target \<^verbatim>\<open>http://[::1\<close>, which \<open>main\<close>
  passes on as typed, \<^verbatim>\<open>urlparse\<close> raises: the check prints no finding and the run
  ends there. For \<^verbatim>\<open>http://example.com\<close> the line of the finding is marked as a
  warning, and the line of a certificate failure has the error sign alone.
\<close>

theorem weak_tls_counterexample:
  "target_url ''http://[::1'' = ''http://[::1''
   \<and> startswith ''http://[::1'' ''http://''
   \<and> check_ssl_tls ''http://[::1'' scenario_env
       = ([Banner ''SSL/TLS ANALYSIS''], Raises (Exc ValueError ''Invalid IPv6 URL''))
   \<and> findings_in WeakTls (fst (check_ssl_tls ''http://[::1'' scenario_env)) = []
   \<and> main remdups ''http://[::1'' scenario_env
       = ([Starting ''http://[::1'', TimeLine, Banner ''SSL/TLS ANALYSIS''],
          Raises (Exc ValueError ''Invalid IPv6 URL''))
   \<and> map severity (findings_in WeakTls (fst (check_ssl_tls ''http://example.com'' scenario_env)))
       = [Warning]
   \<and> marks HttpWarning = [WarningSign, WarningWord]
   \<and> marks (SslErrorLine ''certificate verify failed'') = [ErrorSign]
   \<and> Warning \<noteq> Critical"
  by code_simp

subsection \<open>The header check\<close>

lemma classify_headers_present:
  "fst (classify_headers r hs (present, missing)) =
     present @ concat (map (\<lambda>(h, d). case header r h of Some v \<Rightarrow> [PresentHeader h (take 50 v)] | None \<Rightarrow> []) hs)"
  by (induction hs arbitrary: present missing) (auto split: option.splits)

lemma classify_headers_missing:
  "snd (classify_headers r hs (present, missing)) =
     missing @ map (\<lambda>(h, d). MissingHeader h d) (filter (\<lambda>(h, d). header r h = None) hs)"
  by (induction hs arbitrary: present missing) (auto split: option.splits)

lemma findings_present:
  "findings (concat (map (\<lambda>(h, d). case header r h of Some v \<Rightarrow> [PresentHeader h (take 50 v)] | None \<Rightarrow> []) hs)) = []"
  by (rule findings_no_finding) (auto split: option.splits)

lemma findings_missing:
  "findings (map (\<lambda>(h, d). MissingHeader h d) hs) =
     map (\<lambda>(h, d). Finding HeaderMissing Warning (h @ '' - '' @ d)) hs"
  by (rule findings_map) auto

lemma findings_cookie_lines:
  "findings (cookie_lines r) =
     (case header r ''Set-Cookie'' of
        None \<Rightarrow> []
      | Some cookie \<Rightarrow>
          map (\<lambda>flag. Finding CookieFlag Warning flag)
            (filter (\<lambda>flag. \<not> contains cookie flag) cookie_flags))"
  by (simp add: cookie_lines_def findings_Cons cookie_flags_def split: option.splits)

lemma findings_header_lines:
  "findings (header_lines r) =
     map (\<lambda>(h, d). Finding HeaderMissing Warning (h @ '' - '' @ d))
       (filter (\<lambda>(h, d). header r h = None) security_headers)
     @ findings (cookie_lines r)"
proof -
  obtain present missing where c: "classify_headers r security_headers ([], []) = (present, missing)"
    by (cases "classify_headers r security_headers ([], [])")
  from c classify_headers_present [of r security_headers "[]" "[]"]
  have p: "findings present = []" by (simp add: findings_present)
  from c classify_headers_missing [of r security_headers "[]" "[]"]
  have m: "missing = map (\<lambda>(h, d). MissingHeader h d) (filter (\<lambda>(h, d). header r h = None) security_headers)"
    by simp
  have "findings missing =
     map (\<lambda>(h, d). Finding HeaderMissing Warning (h @ '' - '' @ d))
       (filter (\<lambda>(h, d). header r h = None) security_headers)"
    unfolding m by (rule findings_missing)
  moreover have "missing = [] \<Longrightarrow> filter (\<lambda>(h, d). header r h = None) security_headers = []"
    using m by simp
  ultimately show ?thesis
    unfolding header_lines_def c
    by (simp add: p findings_Cons)
qed

lemma findings_check_security_headers:
  "findings (fst (check_security_headers e)) =
     (case primary_get e of Response r \<Rightarrow> findings (header_lines r) | Raised x \<Rightarrow> [])"
  by (simp add: check_security_headers_def Let_def findings_Cons split: probe.splits)


lemma security_headers_names:
  "map fst security_headers =
     [''Strict-Transport-Security'', ''X-Frame-Options'', ''X-Content-Type-Options'',
      ''Content-Security-Policy'', ''X-XSS-Protection'', ''Referrer-Policy'',
      ''Permissions-Policy'']"
  by (simp add: security_headers_def)

lemma findings_in_cookie_lines: "findings_in HeaderMissing (cookie_lines r) = []"
  by (simp add: findings_in_def findings_cookie_lines filter_category_map [where c' = CookieFlag]
        split: option.splits)

text \<open>
  C6. When the request of \<^verbatim>\<open>check_security_headers\<close> returns a response, the
  \<open>HeaderMissing\<close> findings are, in the order of the seven names, one \<open>Warning\<close> for
  each name the response does not hold (names compared without regard to case) and none
  for a name it holds. The seven names are distinct, so no name is reported twice. A
  response that holds \<^verbatim>\<open>Strict-Transport-Security\<close> gives no finding for that name;
  a response that holds none of the seven gives exactly seven findings.
\<close>

theorem header_missing_findings:
  assumes "primary_get e = Response r"
  shows "findings_in HeaderMissing (fst (check_security_headers e)) =
           map (\<lambda>(h, d). Finding HeaderMissing Warning (h @ '' - '' @ d))
             (filter (\<lambda>(h, d). header r h = None) security_headers)
         \<and> distinct (map fst security_headers)
         \<and> length security_headers = 7
         \<and> (header r ''Strict-Transport-Security'' \<noteq> None \<longrightarrow>
              Finding HeaderMissing Warning ''Strict-Transport-Security - HSTS - Forces HTTPS''
                \<notin> set (findings_in HeaderMissing (fst (check_security_headers e))))
         \<and> ((\<forall>h \<in> set (map fst security_headers). header r h = None) \<longrightarrow>
              length (findings_in HeaderMissing (fst (check_security_headers e))) = 7)"
proof -
  have "findings_in HeaderMissing (header_lines r) =
           map (\<lambda>(h, d). Finding HeaderMissing Warning (h @ '' - '' @ d))
             (filter (\<lambda>(h, d). header r h = None) security_headers)"
    using findings_in_cookie_lines [of r]
    by (simp add: findings_in_def findings_header_lines
          filter_category_map [where c' = HeaderMissing] split_beta)
  then have eq: "findings_in HeaderMissing (fst (check_security_headers e)) =
           map (\<lambda>(h, d). Finding HeaderMissing Warning (h @ '' - '' @ d))
             (filter (\<lambda>(h, d). header r h = None) security_headers)"
    using assms by (simp add: findings_in_def findings_check_security_headers)
  have d: "distinct (map fst security_headers)"
    unfolding security_headers_names by simp
  have l: "length security_headers = 7"
    by (simp add: security_headers_def)
  have sts: "Finding HeaderMissing Warning ''Strict-Transport-Security - HSTS - Forces HTTPS''
                \<notin> set (findings_in HeaderMissing (fst (check_security_headers e)))"
    if "header r ''Strict-Transport-Security'' \<noteq> None"
    unfolding eq using that by (auto simp: security_headers_def Finding_def)
  have all: "length (findings_in HeaderMissing (fst (check_security_headers e))) = 7"
    if "\<forall>h \<in> set (map fst security_headers). header r h = None"
  proof -
    from that have "filter (\<lambda>(h, d). header r h = None) security_headers = security_headers"
      by (auto intro!: filter_True)
    with eq l show ?thesis by simp
  qed
  from eq d l sts all show ?thesis by blast
qed

theorem header_missing_findings_witness:
  "primary_get hsts_env = Response hsts_page
   \<and> header hsts_page ''Strict-Transport-Security'' \<noteq> None
   \<and> Finding HeaderMissing Warning ''Strict-Transport-Security - HSTS - Forces HTTPS''
        \<notin> set (findings_in HeaderMissing (fst (check_security_headers hsts_env)))
   \<and> length (findings_in HeaderMissing (fst (check_security_headers hsts_env))) = 6
   \<and> primary_get scenario_env = Response scenario_page
   \<and> length (findings_in HeaderMissing (fst (check_security_headers scenario_env))) = 7"
proof -
  have p1: "primary_get hsts_env = Response hsts_page"
    by (simp add: hsts_env_def)
  have h1: "header hsts_page ''Strict-Transport-Security'' \<noteq> None"
    by code_simp
  have n1: "length (filter (\<lambda>(h, d). header hsts_page h = None) security_headers) = 6"
    by code_simp
  have p2: "primary_get scenario_env = Response scenario_page"
    by (simp add: scenario_env_def)
  have h2: "\<forall>h \<in> set (map fst security_headers). header scenario_page h = None"
    by code_simp
  note t = header_missing_findings [OF p1]
  from t h1
  have "Finding HeaderMissing Warning ''Strict-Transport-Security - HSTS - Forces HTTPS''
          \<notin> set (findings_in HeaderMissing (fst (check_security_headers hsts_env)))"
    by blast
  moreover from t [THEN conjunct1] n1
  have "length (findings_in HeaderMissing (fst (check_security_headers hsts_env))) = 6"
    by simp
  moreover from header_missing_findings [OF p2] h2
  have "length (findings_in HeaderMissing (fst (check_security_headers scenario_env))) = 7"
    by blast
  ultimately show ?thesis using p1 h1 p2 by blast
qed

subsection \<open>The analysis of the page\<close>

lemma findings_comments:
  "findings (map comment_line (List.enumerate n cs)) =
     map (\<lambda>c. Finding SensitiveComment Warning (cleaned c)) (filter (\<lambda>c. has_keyword (cleaned c)) cs)"
  by (induction cs arbitrary: n) (simp_all add: findings_Cons comment_line_def)

lemma findings_comment_lines:
  "findings (comment_lines html) =
     map (\<lambda>c. Finding SensitiveComment Warning (cleaned c))
       (filter (\<lambda>c. has_keyword (cleaned c)) (take 5 (comments_of html)))"
  by (simp add: comment_lines_def Let_def findings_Cons findings_comments)

lemma findings_inline_script_lines:
  "findings (inline_script_lines html) =
     (if length (tag_blocks False ''<script'' ''</script>'' html) > 10
      then [Finding InlineScriptAdvisory Warning []] else [])"
  by (simp add: inline_script_lines_def Let_def findings_Cons)

lemma external_script_loop_returns:
  "snd (external_script_loop check_host scripts) = Returns ()
     \<longleftrightarrow> list_all (accepted check_host) scripts"
  by (induction scripts) (auto simp: accepted_def split: outcome.splits)

lemma external_script_loop_raises:
  "snd (external_script_loop check_host scripts) = Raises x \<Longrightarrow> kind x = ValueError"
  by (induction scripts) (auto simp: urlparse_raises split: outcome.splits)

lemma external_script_lines_returns:
  "snd (external_script_lines check_host html) = Returns () \<longleftrightarrow> scripts_parse check_host html"
  by (simp add: external_script_lines_def Let_def scripts_parse_def external_script_loop_returns)

lemma external_script_lines_raises:
  "snd (external_script_lines check_host html) = Raises x \<Longrightarrow>
   kind x = ValueError \<and> \<not> scripts_parse check_host html"
  using external_script_lines_returns [of check_host html]
  by (auto simp: external_script_lines_def Let_def external_script_loop_raises split: if_splits)

lemma findings_external_script_loop:
  "findings (fst (external_script_loop check_host scripts)) = []"
  by (induction scripts)
     (simp_all add: findings_Cons external_script_line_def split: outcome.splits)

lemma findings_external_script_lines:
  "findings (fst (external_script_lines check_host html)) = []"
  by (simp add: external_script_lines_def Let_def findings_Cons findings_external_script_loop)

lemma findings_form_line:
  "findings (form_line (i, form)) = (if lacks_csrf form then [Finding NoCsrfToken Warning []] else [])"
  by (simp add: form_line_def Let_def findings_Cons split: option.splits)

lemma findings_forms:
  "findings (concat (map form_line (List.enumerate n forms))) =
     map (\<lambda>form. Finding NoCsrfToken Warning []) (filter lacks_csrf forms)"
  by (induction forms arbitrary: n) (simp_all add: findings_form_line)

lemma findings_form_lines:
  "findings (form_lines html) =
     map (\<lambda>form. Finding NoCsrfToken Warning [])
       (filter lacks_csrf (tag_blocks True ''<form'' ''</form>'' html))"
  by (simp add: form_lines_def Let_def findings_Cons findings_forms)

lemma findings_email_lines: "findings (email_lines ord html) = []"
  by (rule findings_no_finding) (auto simp: email_lines_def Let_def split: if_splits)

lemma findings_secret_lines:
  "findings (secret_lines html) =
     map (\<lambda>(key_type, key_value).
            Finding ExposedSecret Critical (key_type @ '': '' @ take 20 key_value @ ''...''))
       (potential_keys_of html)"
proof -
  have "findings (map (\<lambda>(key_type, key_value). Secret key_type (take 20 key_value)) kvs) =
     map (\<lambda>(key_type, key_value).
            Finding ExposedSecret Critical (key_type @ '': '' @ take 20 key_value @ ''...'')) kvs"
    for kvs
    by (rule findings_map) auto
  then show ?thesis
    by (simp add: secret_lines_def Let_def findings_Cons)
qed

text \<open>
  How \<^verbatim>\<open>analyze_html_content\<close> ends, and what it has printed by then: the
  sub-checks behind the loop over the external scripts run when that loop returns.
\<close>

lemma analyze_html_content_cases:
  "analyze_html_content ord check_host response =
     (case response of
        None \<Rightarrow> ([Banner ''HTML CONTENT ANALYSIS''], Returns ())
      | Some r \<Rightarrow>
          if \<not> ok r then ([Banner ''HTML CONTENT ANALYSIS''], Returns ())
          else if scripts_parse check_host (body r) then
            (Banner ''HTML CONTENT ANALYSIS'' # comment_lines (body r)
             @ inline_script_lines (body r) @ fst (external_script_lines check_host (body r))
             @ form_lines (body r) @ email_lines ord (body r) @ secret_lines (body r),
             Returns ())
          else
            (Banner ''HTML CONTENT ANALYSIS'' # comment_lines (body r)
             @ inline_script_lines (body r) @ fst (external_script_lines check_host (body r)),
             snd (external_script_lines check_host (body r))))"
proof (cases response)
  case None
  then show ?thesis by (simp add: analyze_html_content_def)
next
  case (Some r)
  show ?thesis
  proof (cases "snd (external_script_lines check_host (body r))")
    case (Returns u)
    then have "scripts_parse check_host (body r)"
      using external_script_lines_returns [of check_host "body r"] by simp
    with Some Returns show ?thesis by (simp add: analyze_html_content_def Let_def)
  next
    case (Raises x)
    then have "\<not> scripts_parse check_host (body r)"
      by (simp add: external_script_lines_raises)
    with Some Raises show ?thesis by (simp add: analyze_html_content_def Let_def)
  qed
qed

lemma analyze_html_content_returns:
  "snd (analyze_html_content ord check_host response) = Returns () \<longleftrightarrow>
     (case response of None \<Rightarrow> True | Some r \<Rightarrow> \<not> ok r \<or> scripts_parse check_host (body r))"
  using external_script_lines_returns [of check_host]
  by (simp add: analyze_html_content_cases split: option.splits)

lemma analyze_html_content_raises:
  "snd (analyze_html_content ord check_host response) = Raises x \<Longrightarrow> kind x = ValueError"
  by (auto simp: analyze_html_content_cases external_script_lines_raises
        split: option.splits if_splits)

lemma analyze_html_content_outcome:
  "snd (analyze_html_content ord check_host response)
     = snd (analyze_html_content ord' check_host response)"
  by (simp add: analyze_html_content_cases split: option.splits)

lemma findings_analyze_html_content:
  "findings (fst (analyze_html_content ord check_host response)) =
     (case response of
        None \<Rightarrow> []
      | Some r \<Rightarrow>
          if \<not> ok r then []
          else findings (comment_lines (body r)) @ findings (inline_script_lines (body r))
               @ (if scripts_parse check_host (body r)
                  then findings (form_lines (body r)) @ findings (secret_lines (body r))
                  else []))"
  by (simp add: analyze_html_content_cases findings_Cons findings_email_lines
        findings_external_script_lines split: option.splits)

lemma findings_check_information_disclosure:
  "findings (check_information_disclosure ord response) =
     (case response of
        None \<Rightarrow> []
      | Some r \<Rightarrow>
          if \<not> ok r then []
          else (case header r ''Server'' of Some v \<Rightarrow> [Finding InfoDisclosure Warning v] | None \<Rightarrow> [])
               @ (case header r ''X-Powered-By'' of
                    Some v \<Rightarrow> [Finding InfoDisclosure Warning v] | None \<Rightarrow> [])
               @ (if versions_of (body r) \<noteq> []
                  then [Finding InfoDisclosure Warning (set_repr (ord (versions_of (body r))))]
                  else []))"
  by (simp add: check_information_disclosure_def Let_def findings_Cons split: option.splits)

lemma findings_generate_recommendations: "findings generate_recommendations = []"
  by (rule findings_no_finding) (auto simp: generate_recommendations_def)


lemma findings_in_analyze_html_content:
  "findings_in c (fst (analyze_html_content ord check_host (Some r))) =
     (if \<not> ok r then []
      else (if c = SensitiveComment then findings (comment_lines (body r)) else [])
           @ (if c = InlineScriptAdvisory then findings (inline_script_lines (body r)) else [])
           @ (if c = NoCsrfToken \<and> scripts_parse check_host (body r)
              then findings (form_lines (body r)) else [])
           @ (if c = ExposedSecret \<and> scripts_parse check_host (body r)
              then findings (secret_lines (body r)) else []))"
  by (simp add: findings_in_def findings_analyze_html_content findings_comment_lines
        findings_inline_script_lines findings_form_lines findings_secret_lines
        filter_category_map [where c' = SensitiveComment]
        filter_category_map [where c' = NoCsrfToken]
        filter_category_map [where c' = ExposedSecret] split_beta)

text \<open>
  C7, as the code has it. The script looks at the first five comments only. Each of them
  whose text, stripped of white space at both ends and cut to 100 characters, holds one of
  the five keywords (in any case) gives one \<open>SensitiveComment\<close> finding, a
  \<open>Warning\<close>, whose evidence is that stripped and cut text; the others give none.
  The comments are looked at before the external scripts, so this holds however the
  analysis ends. The page with \<^verbatim>\<open><!-- api_key leaked -->\<close> gives one finding, the
  page with \<^verbatim>\<open><!-- layout fix -->\<close> none.
\<close>

theorem sensitive_comment_findings:
  assumes "ok r"
  shows "findings_in SensitiveComment (fst (analyze_html_content ord check_host (Some r))) =
           map (\<lambda>c. Finding SensitiveComment Warning (cleaned c))
             (filter (\<lambda>c. has_keyword (cleaned c)) (take 5 (comments_of (body r))))"
  using assms by (simp add: findings_in_analyze_html_content findings_comment_lines)

theorem sensitive_comment_findings_witness:
  "ok leaked_comment_page
   \<and> findings_in SensitiveComment
       (fst (analyze_html_content remdups lenient (Some leaked_comment_page)))
       = [Finding SensitiveComment Warning ''api_key leaked'']
   \<and> ok layout_comment_page
   \<and> findings_in SensitiveComment
       (fst (analyze_html_content remdups lenient (Some layout_comment_page))) = []"
proof -
  have 1: "ok leaked_comment_page" and 2: "ok layout_comment_page"
    by (simp_all add: ok_def leaked_comment_page_def layout_comment_page_def)
  have 3: "map (\<lambda>c. Finding SensitiveComment Warning (cleaned c))
             (filter (\<lambda>c. has_keyword (cleaned c)) (take 5 (comments_of (body leaked_comment_page))))
           = [Finding SensitiveComment Warning ''api_key leaked'']"
    by code_simp
  have 4: "map (\<lambda>c. Finding SensitiveComment Warning (cleaned c))
             (filter (\<lambda>c. has_keyword (cleaned c)) (take 5 (comments_of (body layout_comment_page))))
           = []"
    by code_simp
  from sensitive_comment_findings [OF 1, of remdups lenient]
    sensitive_comment_findings [OF 2, of remdups lenient] 1 2 3 4
  show ?thesis by simp
qed

text \<open>
  The claim speaks of every comment. The sixth comment of a page is not looked at: it
  holds \<^verbatim>\<open>password\<close> and gives no finding.
\<close>

theorem sensitive_comment_counterexample:
  "comments_of (body six_comments_page) = [''a'', ''b'', ''c'', ''d'', ''e'', '' password: hunter2 '']
   \<and> contains (lower '' password: hunter2 '') ''password''
   \<and> findings_in SensitiveComment
       (fst (analyze_html_content remdups lenient (Some six_comments_page))) = []"
  by code_simp

lemma match_lit_Cons_iff:
  "match_lit ci s (p # ps) \<longleftrightarrow>
     (\<exists>c cs. s = c # cs \<and> (if ci then lower_char c = p else c = p) \<and> match_lit ci cs ps)"
  by (cases s) auto

lemma lower_char_underscore: "lower_char (CHR ''_'') = CHR ''_''" "lower_char (CHR ''-'') = CHR ''-''"
  by code_simp+

lemma key_name_props:
  assumes "key_name s = Some n"
  shows "lower (take n s) \<in> set key_names \<and> n \<le> 8"
  using assms
  apply (simp add: key_name_def split: if_splits)
  apply (auto simp: match_lit_Cons_iff lower_def key_names_def lower_char_underscore)
  done

lemma quoted_props:
  assumes "quoted n s = Some (v, behind)"
  shows "n \<le> length v \<and> \<not> list_ex is_quote v"
proof -
  from assms obtain q r where s: "s = q # r" by (cases s) (auto simp: quoted_def)
  from assms s have v: "v = takeWhile (\<lambda>c. \<not> is_quote c) r" and n: "n \<le> length v"
    by (auto simp: quoted_def Let_def split: if_splits)
  from v have "\<forall>c \<in> set v. \<not> is_quote c" by (auto dest: set_takeWhileD)
  with n show ?thesis by (simp add: list_ex_iff)
qed

lemma secret_at_props:
  assumes "secret_at s = Some ((k, v), behind)"
  shows "lower k \<in> set key_names \<and> length k \<le> 8 \<and> 20 \<le> length v \<and> \<not> list_ex is_quote v"
proof -
  from assms obtain n r where n: "key_name s = Some n" and k: "k = take n s"
    and q: "quoted 20 r = Some (v, behind)"
    by (auto simp: secret_at_def split: option.splits)
  from key_name_props [OF n] quoted_props [OF q] k show ?thesis by auto
qed

lemma potential_keys_of_props:
  "(k, v) \<in> set (potential_keys_of html) \<Longrightarrow>
   lower k \<in> set key_names \<and> length k \<le> 8 \<and> 20 \<le> length v \<and> \<not> list_ex is_quote v"
proof (induction html rule: potential_keys_of.induct)
  case 1
  then show ?case by (simp add: potential_keys_of.simps)
next
  case (2 c cs)
  show ?case
  proof (cases "secret_at (c # cs)")
    case None
    with 2 show ?thesis by (simp add: potential_keys_of.simps)
  next
    case (Some m)
    obtain k' v' behind where m: "m = ((k', v'), behind)" by (cases m) auto
    from 2(3) Some m have "(k, v) = (k', v') \<or> (k, v) \<in> set (potential_keys_of behind)"
      by (simp add: potential_keys_of.simps)
    then show ?thesis
    proof
      assume "(k, v) = (k', v')"
      with secret_at_props [of "c # cs" k' v' behind] Some m show ?thesis by simp
    next
      assume "(k, v) \<in> set (potential_keys_of behind)"
      from 2(2) [OF Some m [symmetric] this] show ?thesis .
    qed
  qed
qed

text \<open>
  C4, as the code has it. The secrets are the last thing \<^verbatim>\<open>analyze_html_content\<close>
  looks at. It gets there when the response is true and \<^verbatim>\<open>urlparse\<close> returns for
  each of the first ten external scripts of the page; then each match of the pattern gives
  exactly one \<open>ExposedSecret\<close> finding, \<open>Critical\<close>, in the order of the
  matches, whose evidence is the name as written, a colon, the first 20 characters of the
  value and three dots. When \<^verbatim>\<open>urlparse\<close> raises for one of these scripts, the
  analysis ends with that \<^verbatim>\<open>ValueError\<close> and prints no \<open>ExposedSecret\<close>
  finding. The name of a match is one of \<^verbatim>\<open>api_key\<close>, \<^verbatim>\<open>api-key\<close>,
  \<^verbatim>\<open>apikey\<close>, \<^verbatim>\<open>token\<close>, \<^verbatim>\<open>secret\<close>, \<^verbatim>\<open>password\<close> in any case,
  and its value has at least 20 characters, none of them a quote. No character of the
  value behind the 20th enters the evidence; the page with the 26 letters gives one
  finding whose evidence does not hold the 26 letters.
\<close>

theorem exposed_secret_findings:
  assumes "ok r"
  shows "(snd (analyze_html_content ord check_host (Some r)) = Returns ()
            \<longleftrightarrow> scripts_parse check_host (body r))
         \<and> (scripts_parse check_host (body r) \<longrightarrow>
              findings_in ExposedSecret (fst (analyze_html_content ord check_host (Some r))) =
                map (\<lambda>(k, v). Finding ExposedSecret Critical (k @ '': '' @ take 20 v @ ''...''))
                  (potential_keys_of (body r)))
         \<and> (\<not> scripts_parse check_host (body r) \<longrightarrow>
              findings_in ExposedSecret (fst (analyze_html_content ord check_host (Some r))) = []
              \<and> (\<exists>x. snd (analyze_html_content ord check_host (Some r)) = Raises x
                       \<and> kind x = ValueError))
         \<and> (\<forall>(k, v) \<in> set (potential_keys_of (body r)).
               lower k \<in> set key_names \<and> 20 \<le> length v \<and> \<not> list_ex is_quote v)"
proof -
  have 1: "snd (analyze_html_content ord check_host (Some r)) = Returns ()
            \<longleftrightarrow> scripts_parse check_host (body r)"
    using assms by (simp add: analyze_html_content_returns)
  have 2: "findings_in ExposedSecret (fst (analyze_html_content ord check_host (Some r))) =
                map (\<lambda>(k, v). Finding ExposedSecret Critical (k @ '': '' @ take 20 v @ ''...''))
                  (potential_keys_of (body r))"
    if "scripts_parse check_host (body r)"
    using assms that by (simp add: findings_in_analyze_html_content findings_secret_lines)
  have 3: "findings_in ExposedSecret (fst (analyze_html_content ord check_host (Some r))) = []
           \<and> (\<exists>x. snd (analyze_html_content ord check_host (Some r)) = Raises x
                    \<and> kind x = ValueError)"
    if n: "\<not> scripts_parse check_host (body r)"
  proof -
    from n 1 obtain x where x: "snd (analyze_html_content ord check_host (Some r)) = Raises x"
      by (cases "snd (analyze_html_content ord check_host (Some r))") auto
    from analyze_html_content_raises [OF x] x assms n show ?thesis
      by (simp add: findings_in_analyze_html_content)
  qed
  have 4: "\<forall>(k, v) \<in> set (potential_keys_of (body r)).
               lower k \<in> set key_names \<and> 20 \<le> length v \<and> \<not> list_ex is_quote v"
    using potential_keys_of_props [of _ _ "body r"] by auto
  from 1 2 3 4 show ?thesis by blast
qed

text \<open>
  The claim speaks of every body and says that the evidence never holds the full value.
  A value of exactly 20 characters is a match and is printed whole. And a page whose
  first script has the address \<^verbatim>\<open>http://[cdn/x.js\<close> is not analysed to its end:
  its secret is a match of the pattern and gives no finding.
\<close>

theorem exposed_secret_counterexample:
  "findings_in ExposedSecret (fst (analyze_html_content remdups lenient (Some short_token_page)))
     = [Finding ExposedSecret Critical ''token: abcdefghijklmnopqrst...'']
   \<and> potential_keys_of (body short_token_page) = [(''token'', ''abcdefghijklmnopqrst'')]
   \<and> contains ''token: abcdefghijklmnopqrst...'' ''abcdefghijklmnopqrst''
   \<and> ok bracket_script_page
   \<and> external_scripts_of (body bracket_script_page) = [''http://[cdn/x.js'']
   \<and> potential_keys_of (body bracket_script_page) = [(''token'', ''abcdefghijklmnopqrstuvwxyz'')]
   \<and> analyze_html_content remdups lenient (Some bracket_script_page)
       = ([Banner ''HTML CONTENT ANALYSIS'', InlineScripts 1, ExternalScripts 1],
          Raises (Exc ValueError ''Invalid IPv6 URL''))
   \<and> findings_in ExposedSecret
       (fst (analyze_html_content remdups lenient (Some bracket_script_page))) = []"
  by code_simp

theorem exposed_secret_findings_witness:
  "ok token_page
   \<and> scripts_parse lenient (body token_page)
   \<and> potential_keys_of (body token_page) = [(''token'', ''abcdefghijklmnopqrstuvwxyz'')]
   \<and> findings_in ExposedSecret (fst (analyze_html_content remdups lenient (Some token_page)))
       = [Finding ExposedSecret Critical ''token: abcdefghijklmnopqrst...'']
   \<and> snd (analyze_html_content remdups lenient (Some token_page)) = Returns ()
   \<and> \<not> contains ''token: abcdefghijklmnopqrst...'' ''abcdefghijklmnopqrstuvwxyz''
   \<and> lower ''token'' \<in> set key_names
   \<and> 20 \<le> length ''abcdefghijklmnopqrstuvwxyz''
   \<and> ok cdn_script_page
   \<and> scripts_parse lenient (body cdn_script_page)
   \<and> findings_in ExposedSecret (fst (analyze_html_content remdups lenient (Some cdn_script_page)))
       = [Finding ExposedSecret Critical ''token: abcdefghijklmnopqrst...'']
   \<and> ok bracket_script_page
   \<and> \<not> scripts_parse lenient (body bracket_script_page)
   \<and> findings_in ExposedSecret
       (fst (analyze_html_content remdups lenient (Some bracket_script_page))) = []
   \<and> snd (analyze_html_content remdups lenient (Some bracket_script_page))
       \<noteq> Returns ()"
proof -
  have p1: "ok token_page" and p2: "ok cdn_script_page" and p3: "ok bracket_script_page"
    by (simp_all add: ok_def token_page_def cdn_script_page_def bracket_script_page_def)
  have k1: "potential_keys_of (body token_page) = [(''token'', ''abcdefghijklmnopqrstuvwxyz'')]"
    by code_simp
  have k2: "potential_keys_of (body cdn_script_page)
              = [(''token'', ''abcdefghijklmnopqrstuvwxyz'')]"
    by code_simp
  have c: "\<not> contains ''token: abcdefghijklmnopqrst...'' ''abcdefghijklmnopqrstuvwxyz''"
    by code_simp
  have s1: "scripts_parse lenient (body token_page)"
    by code_simp
  have s2: "scripts_parse lenient (body cdn_script_page)"
    by code_simp
  have s3: "\<not> scripts_parse lenient (body bracket_script_page)"
    by code_simp
  note t1 = exposed_secret_findings [OF p1, of remdups lenient]
  note t2 = exposed_secret_findings [OF p2, of remdups lenient]
  note t3 = exposed_secret_findings [OF p3, of remdups lenient]
  from t1 s1 k1
  have f1: "findings_in ExposedSecret (fst (analyze_html_content remdups lenient (Some token_page)))
       = [Finding ExposedSecret Critical ''token: abcdefghijklmnopqrst...'']"
    by simp
  from t1 s1 have r1: "snd (analyze_html_content remdups lenient (Some token_page)) = Returns ()"
    by blast
  from t1 k1
  have n1: "lower ''token'' \<in> set key_names \<and> 20 \<le> length ''abcdefghijklmnopqrstuvwxyz''"
    by simp
  from t2 s2 k2
  have f2: "findings_in ExposedSecret
       (fst (analyze_html_content remdups lenient (Some cdn_script_page)))
       = [Finding ExposedSecret Critical ''token: abcdefghijklmnopqrst...'']"
    by simp
  from t3 s3
  have f3: "findings_in ExposedSecret
       (fst (analyze_html_content remdups lenient (Some bracket_script_page))) = []"
    by blast
  from t3 s3
  have r3: "snd (analyze_html_content remdups lenient (Some bracket_script_page)) \<noteq> Returns ()"
    by blast
  from p1 p2 p3 k1 c s1 s2 s3 f1 r1 n1 f2 f3 r3 show ?thesis by blast
qed

text \<open>
  C10, as the code has it. A response whose status lies between 400 and 599 is false
  in \<^verbatim>\<open>if not response\<close>, so both checks print their title and return, as they do
  for \<^verbatim>\<open>None\<close>: no finding comes from either.
\<close>

theorem error_status_skips_analysis:
  assumes "400 \<le> status_code r" and "status_code r < 600"
  shows "analyze_html_content ord check_host (Some r) = analyze_html_content ord check_host None
       \<and> check_information_disclosure ord (Some r) = check_information_disclosure ord None
       \<and> findings (fst (analyze_html_content ord check_host (Some r))) = []
       \<and> findings (check_information_disclosure ord (Some r)) = []"
  using assms
  by (simp add: analyze_html_content_def check_information_disclosure_def ok_def findings_Cons)

theorem error_status_skips_analysis_witness:
  "400 \<le> status_code error_page \<and> status_code error_page < 600
   \<and> analyze_html_content remdups lenient (Some error_page)
       = ([Banner ''HTML CONTENT ANALYSIS''], Returns ())
   \<and> check_information_disclosure remdups (Some error_page) = [Banner ''INFORMATION DISCLOSURE'']
   \<and> findings (fst (analyze_html_content remdups lenient (Some error_page))) = []
   \<and> findings (check_information_disclosure remdups (Some error_page)) = []"
proof -
  have 1: "400 \<le> status_code error_page" and 2: "status_code error_page < 600"
    by (simp_all add: error_page_def)
  have 3: "analyze_html_content remdups lenient None
             = ([Banner ''HTML CONTENT ANALYSIS''], Returns ())"
    by (simp add: analyze_html_content_def)
  have 4: "check_information_disclosure remdups None = [Banner ''INFORMATION DISCLOSURE'']"
    by (simp add: check_information_disclosure_def)
  from error_status_skips_analysis [OF 1 2, of remdups lenient] 1 2 3 4 show ?thesis
    by (simp add: findings_Cons)
qed

text \<open>
  The claim speaks of every status from 400 on. A status of 600 or more is no error for
  \<^verbatim>\<open>raise_for_status\<close>: the page sent with status 999 is analysed, and both checks
  report a finding.
\<close>

theorem error_status_counterexample:
  "400 \<le> status_code blocked_page
   \<and> findings (fst (analyze_html_content remdups lenient (Some blocked_page)))
       = [Finding NoCsrfToken Warning []]
   \<and> findings (check_information_disclosure remdups (Some blocked_page))
       = [Finding InfoDisclosure Warning ''nginx/1.2.3'']"
  by code_simp

subsection \<open>The whole run\<close>

lemma main_cases:
  "main ord typed e =
     (case snd (check_ssl_tls (target_url typed) e) of
        Raises x \<Rightarrow>
          ([Starting (target_url typed), TimeLine] @ fst (check_ssl_tls (target_url typed) e),
           Raises x)
      | Returns u \<Rightarrow>
          (case snd (check_security_headers e) of
             Raises x \<Rightarrow>
               ([Starting (target_url typed), TimeLine] @ fst (check_ssl_tls (target_url typed) e)
                @ fst (check_security_headers e), Raises x)
           | Returns response \<Rightarrow>
               (case snd (analyze_html_content ord (check_bracketed_host e) response) of
                  Raises x \<Rightarrow>
                    ([Starting (target_url typed), TimeLine]
                     @ fst (check_ssl_tls (target_url typed) e)
                     @ fst (check_security_headers e) @ check_common_files e
                     @ fst (analyze_html_content ord (check_bracketed_host e) response),
                     Raises x)
                | Returns u' \<Rightarrow>
                    ([Starting (target_url typed), TimeLine]
                     @ fst (check_ssl_tls (target_url typed) e)
                     @ fst (check_security_headers e) @ check_common_files e
                     @ fst (analyze_html_content ord (check_bracketed_host e) response)
                     @ check_information_disclosure ord response
                     @ generate_recommendations
                     @ [Banner ''SECURITY AUDIT COMPLETE'', Disclaimer],
                     Returns ()))))"
proof -
  obtain t1 o1 where 1: "check_ssl_tls (target_url typed) e = (t1, o1)"
    by (cases "check_ssl_tls (target_url typed) e")
  obtain t2 o2 where 2: "check_security_headers e = (t2, o2)"
    by (cases "check_security_headers e")
  have 3: "(case analyze_html_content ord (check_bracketed_host e) response of
              (t4, Raises x) \<Rightarrow> f t4 x
            | (t4, Returns u') \<Rightarrow> g t4) =
           (case snd (analyze_html_content ord (check_bracketed_host e) response) of
              Raises x \<Rightarrow> f (fst (analyze_html_content ord (check_bracketed_host e) response)) x
            | Returns u' \<Rightarrow> g (fst (analyze_html_content ord (check_bracketed_host e) response)))"
    for response and f :: "event list \<Rightarrow> exc \<Rightarrow> event list \<times> unit outcome" and g
    by (cases "analyze_html_content ord (check_bracketed_host e) response")
       (simp split: outcome.splits)
  show ?thesis
    by (simp add: main_def Let_def 1 2 3 split: outcome.splits)
qed

lemma findings_main:
  assumes "snd (check_ssl_tls (target_url typed) e) = Returns u"
    and "snd (check_security_headers e) = Returns response"
    and "snd (analyze_html_content ord (check_bracketed_host e) response) = Returns u'"
  shows "findings (fst (main ord typed e)) =
       findings (fst (check_ssl_tls (target_url typed) e))
       @ findings (fst (check_security_headers e))
       @ findings (check_common_files e)
       @ findings (fst (analyze_html_content ord (check_bracketed_host e) response))
       @ findings (check_information_disclosure ord response)"
  by (simp add: main_cases assms findings_Cons findings_generate_recommendations)


text \<open>
  C2. The claim does not hold of the code. \<^verbatim>\<open>check_ssl_tls\<close> catches
  \<^verbatim>\<open>SSLError\<close> only: when the host refuses the connection, the exception leaves
  the function and \<open>main\<close> ends there, before any other check has run. The two other
  checks do turn the same failure into a value: \<^verbatim>\<open>check_security_headers\<close> prints
  the error and returns \<^verbatim>\<open>None\<close>, and \<^verbatim>\<open>check_common_files\<close> counts every
  path as safe.
\<close>

theorem connection_failure_aborts:
  "main remdups ''https://example.test'' unreachable_env =
     ([Starting ''https://example.test'', TimeLine, Banner ''SSL/TLS ANALYSIS'', UsesHttps,
       Get Target 10 True],
      Raises (Exc ConnectionError ''connection refused''))
   \<and> check_security_headers unreachable_env =
     ([Banner ''SECURITY HEADERS ANALYSIS'', Get Target 10 True, FetchError ''connection refused''],
      Returns None)
   \<and> summary_lines (check_common_files unreachable_env) = [(21, 21)]"
  by code_simp

subsection \<open>The end-to-end scenario\<close>

lemma files_all_safe:
  assumes "\<forall>f. \<exists>r. file_get e f = Response r \<and> status_code r \<noteq> 200"
  shows "check_common_files e =
     Banner ''EXPOSED FILES CHECK'' # map (\<lambda>f. Get (Joined f) 5 False) common_files
     @ [NoExposed, Summary 21 21]"
proof -
  have "\<not> answers_200 (file_get e) f" for f
  proof -
    from assms obtain r where "file_get e f = Response r" and "status_code r \<noteq> 200"
      by blast
    then show ?thesis by (simp add: answers_200_def)
  qed
  then show ?thesis
    by (simp add: check_common_files_trace length_common_files)
qed

lemma scenario_trace:
  assumes "tls_get e = Response r0"
    and "primary_get e = Response scenario_page"
    and "\<forall>f. \<exists>r. file_get e f = Response r \<and> status_code r = 404"
  shows "main ord ''https://example.test'' e =
     ([Starting ''https://example.test'', TimeLine,
       Banner ''SSL/TLS ANALYSIS'', UsesHttps, Get Target 10 True, CertValid,
       Banner ''SECURITY HEADERS ANALYSIS'', Get Target 10 True, MissingHeading]
      @ map (\<lambda>(h, d). MissingHeader h d) security_headers
      @ Banner ''EXPOSED FILES CHECK'' # map (\<lambda>f. Get (Joined f) 5 False) common_files
      @ [NoExposed, Summary 21 21,
         Banner ''HTML CONTENT ANALYSIS'', InlineScripts 0, FormsFound 1, FormNoCsrf 1,
         Banner ''INFORMATION DISCLOSURE'']
      @ generate_recommendations
      @ [Banner ''SECURITY AUDIT COMPLETE'', Disclaimer],
      Returns ())"
proof -
  have url: "target_url ''https://example.test'' = ''https://example.test''"
    by code_simp
  have sch: "urlparse (check_bracketed_host e) ''https://example.test''
     = Returns \<lparr>scheme = ''https'', netloc = ''example.test''\<rparr>"
    by code_simp
  have ssl: "check_ssl_tls ''https://example.test'' e =
     ([Banner ''SSL/TLS ANALYSIS'', UsesHttps, Get Target 10 True, CertValid], Returns ())"
    using assms(1) by (simp add: check_ssl_tls_def Let_def sch)
  have "header_lines scenario_page = MissingHeading # map (\<lambda>(h, d). MissingHeader h d) security_headers"
    by code_simp
  then have hdr: "check_security_headers e =
     ([Banner ''SECURITY HEADERS ANALYSIS'', Get Target 10 True, MissingHeading]
      @ map (\<lambda>(h, d). MissingHeader h d) security_headers, Returns (Some scenario_page))"
    using assms(2) by (simp add: check_security_headers_def)
  have "\<forall>f. \<exists>r. file_get e f = Response r \<and> status_code r \<noteq> 200"
    using assms(3) by fastforce
  then have files: "check_common_files e =
     Banner ''EXPOSED FILES CHECK'' # map (\<lambda>f. Get (Joined f) 5 False) common_files
     @ [NoExposed, Summary 21 21]"
    by (rule files_all_safe)
  have html: "analyze_html_content ord (check_bracketed_host e) (Some scenario_page) =
     ([Banner ''HTML CONTENT ANALYSIS'', InlineScripts 0, FormsFound 1, FormNoCsrf 1], Returns ())"
    by code_simp
  have disc: "check_information_disclosure ord (Some scenario_page) =
     [Banner ''INFORMATION DISCLOSURE'']"
    by code_simp
  show ?thesis
    by (simp add: main_cases url ssl hdr files html disc)
qed

lemma findings_scenario:
  assumes "tls_get e = Response r0"
    and "primary_get e = Response scenario_page"
    and "\<forall>f. \<exists>r. file_get e f = Response r \<and> status_code r = 404"
  shows "findings (fst (main ord ''https://example.test'' e)) =
     map (\<lambda>(h, d). Finding HeaderMissing Warning (h @ '' - '' @ d)) security_headers
     @ [Finding NoCsrfToken Warning []]"
  by (simp add: scenario_trace [OF assms] findings_Cons findings_missing findings_gets
        findings_generate_recommendations)

text \<open>
  C3, as the code has it. In the scenario (the handshake succeeds, the page holds the
  \<^verbatim>\<open>Content-Type\<close> header alone and the form with one input, every path answers 404)
  the run completes with seven \<open>HeaderMissing\<close> findings, one \<open>NoCsrfToken\<close>
  finding, no \<open>ExposedFile\<close> and no \<open>WeakTls\<close> finding, and the summary line
  counts 21 paths checked, all 21 of them safe: the list of the script has 21 entries.
\<close>

theorem end_to_end_scenario:
  assumes "tls_get e = Response r0"
    and "primary_get e = Response scenario_page"
    and "\<forall>f. \<exists>r. file_get e f = Response r \<and> status_code r = 404"
  shows "length (findings_in HeaderMissing (fst (main ord ''https://example.test'' e))) = 7
       \<and> length (findings_in NoCsrfToken (fst (main ord ''https://example.test'' e))) = 1
       \<and> length (findings_in ExposedFile (fst (main ord ''https://example.test'' e))) = 0
       \<and> length (findings_in WeakTls (fst (main ord ''https://example.test'' e))) = 0
       \<and> exposed_files (fst (main ord ''https://example.test'' e)) = []
       \<and> summary_lines (fst (main ord ''https://example.test'' e)) = [(21, 21)]
       \<and> length common_files = 21
       \<and> snd (main ord ''https://example.test'' e) = Returns ()"
proof -
  have f: "findings_in c (fst (main ord ''https://example.test'' e)) =
     (if c = HeaderMissing
      then map (\<lambda>(h, d). Finding HeaderMissing Warning (h @ '' - '' @ d)) security_headers
      else if c = NoCsrfToken then [Finding NoCsrfToken Warning []] else [])" for c
    by (simp add: findings_in_def findings_scenario [OF assms]
          filter_category_map [where c' = HeaderMissing] split_beta)
  have x: "exposed_files (fst (main ord ''https://example.test'' e)) = []"
    by (simp add: scenario_trace [OF assms] exposed_files_Cons generate_recommendations_def)
  have s: "summary_lines (fst (main ord ''https://example.test'' e)) = [(21, 21)]"
    by (simp add: scenario_trace [OF assms] summary_lines_Cons generate_recommendations_def)
  have r: "snd (main ord ''https://example.test'' e) = Returns ()"
    by (simp add: scenario_trace [OF assms])
  from x s r show ?thesis
    by (simp add: f length_common_files security_headers_def)
qed

theorem end_to_end_scenario_witness:
  "tls_get scenario_env = Response \<lparr>status_code = 200, headers = [], body = []\<rparr>
   \<and> primary_get scenario_env = Response scenario_page
   \<and> (\<forall>f. \<exists>r. file_get scenario_env f = Response r \<and> status_code r = 404)
   \<and> length (findings_in HeaderMissing (fst (main remdups ''https://example.test'' scenario_env))) = 7
   \<and> length (findings_in NoCsrfToken (fst (main remdups ''https://example.test'' scenario_env))) = 1
   \<and> length (findings_in ExposedFile (fst (main remdups ''https://example.test'' scenario_env))) = 0
   \<and> length (findings_in WeakTls (fst (main remdups ''https://example.test'' scenario_env))) = 0
   \<and> summary_lines (fst (main remdups ''https://example.test'' scenario_env)) = [(21, 21)]
   \<and> snd (main remdups ''https://example.test'' scenario_env) = Returns ()"
proof -
  have 1: "tls_get scenario_env = Response \<lparr>status_code = 200, headers = [], body = []\<rparr>"
    by (simp add: scenario_env_def found_def)
  have 2: "primary_get scenario_env = Response scenario_page"
    by (simp add: scenario_env_def)
  have 3: "\<forall>f. \<exists>r. file_get scenario_env f = Response r \<and> status_code r = 404"
    by (simp add: scenario_env_def not_found_def)
  from end_to_end_scenario [OF 1 2 3, of remdups] 1 2 3 show ?thesis
    by simp
qed

text \<open>The claim has 20 paths checked; the run of the scenario reports 21.\<close>

theorem end_to_end_counterexample:
  "summary_lines (fst (main remdups ''https://example.test'' scenario_env)) = [(21, 21)]
   \<and> length common_files = 21
   \<and> (21::nat) \<noteq> 20"
  by code_simp


subsection \<open>The length of the evidence\<close>

lemma capped_ssl:
  assumes "f \<in> set (findings (fst (check_ssl_tls url e)))"
  shows "capped f"
proof (cases "urlparse (check_bracketed_host e) url")
  case (Raises x)
  with assms show ?thesis by (simp add: findings_check_ssl_tls)
next
  case (Returns parsed)
  consider (http) "scheme parsed = ''http''"
    | (https) "scheme parsed \<noteq> ''http''" "scheme parsed = ''https''"
    | (other) "scheme parsed \<noteq> ''http''" "scheme parsed \<noteq> ''https''"
    by blast
  then show ?thesis
  proof cases
    case http
    with assms Returns show ?thesis by (simp add: findings_check_ssl_tls capped_def)
  next
    case https
    with assms Returns show ?thesis
      by (cases "tls_get e") (simp_all add: findings_check_ssl_tls capped_def split: if_splits)
  next
    case other
    with assms Returns show ?thesis by (simp add: findings_check_ssl_tls)
  qed
qed

lemma capped_headers: "f \<in> set (findings (fst (check_security_headers e))) \<Longrightarrow> capped f"
proof -
  have h: "length (h @ '' - '' @ d) \<le> 100" if "(h, d) \<in> set security_headers" for h d
    using that by (auto simp: security_headers_def)
  have c: "length flag \<le> 100" if "flag \<in> set cookie_flags" for flag
    using that by (auto simp: cookie_flags_def)
  assume "f \<in> set (findings (fst (check_security_headers e)))"
  then show ?thesis
    using h c
    by (auto simp: findings_check_security_headers findings_header_lines findings_cookie_lines
          capped_def split: probe.splits option.splits)
qed

lemma capped_files: "f \<in> set (findings (check_common_files e)) \<Longrightarrow> capped f"
proof -
  have "length path \<le> 100" if "path \<in> set common_files" for path
    using that by (auto simp: common_files_def)
  moreover assume "f \<in> set (findings (check_common_files e))"
  ultimately show ?thesis
    by (auto simp: findings_check_common_files capped_def)
qed

lemma capped_html:
  "f \<in> set (findings (fst (analyze_html_content ord check_host response))) \<Longrightarrow> capped f"
proof -
  have "length (k @ '': '' @ take 20 v @ ''...'') \<le> 100"
    if "(k, v) \<in> set (potential_keys_of html)" for k v html
    using potential_keys_of_props [OF that] by simp
  moreover assume "f \<in> set (findings (fst (analyze_html_content ord check_host response)))"
  ultimately show ?thesis
    by (auto simp: findings_analyze_html_content findings_comment_lines
          findings_inline_script_lines findings_form_lines findings_secret_lines capped_def
          cleaned_def split: option.splits if_splits)
qed

lemma capped_disclosure:
  "f \<in> set (findings (check_information_disclosure ord response)) \<Longrightarrow> capped f"
  by (auto simp: findings_check_information_disclosure capped_def split: option.splits if_splits)

lemma findings_main_parts:
  assumes "f \<in> set (findings (fst (main ord typed e)))"
  shows "f \<in> set (findings (fst (check_ssl_tls (target_url typed) e)))
       \<or> f \<in> set (findings (fst (check_security_headers e)))
       \<or> f \<in> set (findings (check_common_files e))
       \<or> (\<exists>response.
             f \<in> set (findings (fst (analyze_html_content ord (check_bracketed_host e) response)))
             \<or> f \<in> set (findings (check_information_disclosure ord response)))"
  using assms
  by (auto simp: main_cases findings_Cons findings_generate_recommendations split: outcome.splits)

text \<open>
  C5, as the code has it. Every finding of a run has evidence of at most 100 characters,
  but for two kinds that the script prints in full: the \<open>WeakTls\<close> finding of a TLS
  failure (the one whose line has the error sign), whose evidence is the message of the
  exception, and the \<open>InfoDisclosure\<close> findings, whose evidence is a header value or the set of version numbers. The
  \<open>NoCsrfToken\<close> line holds no text of the page; the script prints the
  \<^verbatim>\<open>action\<close> value it finds in the form on a line of its own, in full.
\<close>

theorem evidence_cap:
  assumes "f \<in> set (findings (fst (main ord typed e)))"
    and "category f \<noteq> InfoDisclosure"
    and "\<not> (category f = WeakTls \<and> severity f = Error)"
  shows "length (evidence f) \<le> 100"
proof -
  from findings_main_parts [OF assms(1)] have "capped f"
    using capped_ssl capped_headers capped_files capped_html capped_disclosure by blast
  with assms(2,3) show ?thesis by (auto simp: capped_def)
qed



theorem evidence_cap_witness:
  "Finding HeaderMissing Warning ''Strict-Transport-Security - HSTS - Forces HTTPS''
     \<in> set (findings (fst (main remdups ''https://example.test'' scenario_env)))
   \<and> category (Finding HeaderMissing Warning ''Strict-Transport-Security - HSTS - Forces HTTPS'')
       \<noteq> InfoDisclosure
   \<and> category (Finding HeaderMissing Warning ''Strict-Transport-Security - HSTS - Forces HTTPS'')
       \<noteq> WeakTls
   \<and> length (evidence
        (Finding HeaderMissing Warning ''Strict-Transport-Security - HSTS - Forces HTTPS''))
       \<le> 100"
proof -
  have 1: "tls_get scenario_env = Response \<lparr>status_code = 200, headers = [], body = []\<rparr>"
    by (simp add: scenario_env_def found_def)
  have 2: "primary_get scenario_env = Response scenario_page"
    by (simp add: scenario_env_def)
  have 3: "\<forall>f. \<exists>r. file_get scenario_env f = Response r \<and> status_code r = 404"
    by (simp add: scenario_env_def not_found_def)
  have m: "Finding HeaderMissing Warning ''Strict-Transport-Security - HSTS - Forces HTTPS''
     \<in> set (findings (fst (main remdups ''https://example.test'' scenario_env)))"
    by (simp add: findings_scenario [OF 1 2 3] security_headers_def)
  have c: "category (Finding HeaderMissing Warning ''Strict-Transport-Security - HSTS - Forces HTTPS'')
       \<noteq> InfoDisclosure"
    and w: "category (Finding HeaderMissing Warning ''Strict-Transport-Security - HSTS - Forces HTTPS'')
       \<noteq> WeakTls"
    by simp_all
  from w have "\<not> (category (Finding HeaderMissing Warning
      ''Strict-Transport-Security - HSTS - Forces HTTPS'') = WeakTls
    \<and> severity (Finding HeaderMissing Warning
      ''Strict-Transport-Security - HSTS - Forces HTTPS'') = Error)"
    by simp
  from evidence_cap [OF m c this] m c w show ?thesis by blast
qed

lemma long_message_findings:
  "findings (fst (main remdups ''https://example.test'' long_message_env))
     = [Finding WeakTls Error (replicate 101 (CHR ''x''))]"
proof -
  have u: "target_url ''https://example.test'' = ''https://example.test''"
    by code_simp
  have s: "urlparse (check_bracketed_host long_message_env) ''https://example.test''
     = Returns \<lparr>scheme = ''https'', netloc = ''example.test''\<rparr>"
    by code_simp
  have 1: "check_ssl_tls ''https://example.test'' long_message_env =
     ([Banner ''SSL/TLS ANALYSIS'', UsesHttps, Get Target 10 True,
       SslErrorLine (replicate 101 (CHR ''x''))], Returns ())"
    using s by (simp add: check_ssl_tls_def Let_def long_message_env_def is_SSLError_def)
  have 2: "check_security_headers long_message_env =
     ([Banner ''SECURITY HEADERS ANALYSIS'', Get Target 10 True, FetchError ''connection refused''],
      Returns None)"
    by (simp add: check_security_headers_def long_message_env_def unreachable_def is_Exception_def)
  have 3: "findings (check_common_files long_message_env) = []"
    by (simp add: findings_check_common_files long_message_env_def unreachable_def answers_200_def)
  have 4: "analyze_html_content remdups (check_bracketed_host long_message_env) None
     = ([Banner ''HTML CONTENT ANALYSIS''], Returns ())"
    by (simp add: analyze_html_content_def)
  have 5: "findings (check_information_disclosure remdups None) = []"
    by (simp add: findings_check_information_disclosure)
  show ?thesis
    by (simp add: findings_main [of _ _ "()" None _ "()"] u 1 2 3 4 5 findings_Cons)
qed

lemma long_action_lines:
  "form_lines (body long_action_page) = [FormsFound 1, FormNoCsrf 1, FormAction (replicate 101 (CHR ''a''))]"
  by code_simp

text \<open>
  The claim names the evidence of a TLS failure and the \<^verbatim>\<open>action\<close> value of a
  form. A certificate failure with a message of 101 characters gives a finding with
  evidence of 101 characters, and an \<^verbatim>\<open>action\<close> value of 101 characters is printed
  whole.
\<close>

theorem evidence_cap_counterexample:
  "map (length \<circ> evidence)
     (findings (fst (main remdups ''https://example.test'' long_message_env))) = [101]
   \<and> map category (findings (fst (main remdups ''https://example.test'' long_message_env)))
       = [WeakTls]
   \<and> FormAction (replicate 101 (CHR ''a''))
       \<in> set (fst (analyze_html_content remdups lenient (Some long_action_page)))"
proof -
  have "ok long_action_page"
    by (simp add: ok_def long_action_page_def)
  moreover have "external_scripts_of (body long_action_page) = []"
    by code_simp
  then have "scripts_parse lenient (body long_action_page)"
    by (simp add: scripts_parse_def)
  ultimately have "set (form_lines (body long_action_page))
      \<subseteq> set (fst (analyze_html_content remdups lenient (Some long_action_page)))"
    by (auto simp: analyze_html_content_cases)
  then show ?thesis
    by (auto simp: long_message_findings long_action_lines)
qed


subsection \<open>The iteration order of sets\<close>

lemma valid_order_length: "valid_order ord \<Longrightarrow> length (ord xs) = length (remdups xs)"
  by (metis valid_order_def distinct_card length_remdups_card_conv)

lemma blank_emails: "map (blank_order \<circ> Email) xs = replicate (length xs) (Email [])"
  by (induction xs) simp_all

lemma blank_email_lines:
  assumes "valid_order ord"
  shows "map blank_order (email_lines ord html) =
     (if emails_of None html \<noteq> []
      then EmailsExposed (length (remdups (emails_of None html)))
           # replicate (min (length (remdups (emails_of None html))) 5) (Email [])
      else [])"
  by (simp add: email_lines_def Let_def blank_emails valid_order_length [OF assms])

lemma blank_external_script_lines:
  "map blank_order (fst (external_script_lines check_host html))
     = fst (external_script_lines check_host html)"
proof -
  have "map blank_order (fst (external_script_loop check_host scripts))
     = fst (external_script_loop check_host scripts)" for scripts
    by (induction scripts) (simp_all add: external_script_line_def split: outcome.splits)
  then show ?thesis
    by (simp add: external_script_lines_def Let_def)
qed

lemma blank_analyze:
  assumes "valid_order ord" and "valid_order ord'"
  shows "map blank_order (fst (analyze_html_content ord check_host response))
       = map blank_order (fst (analyze_html_content ord' check_host response))"
  by (simp add: analyze_html_content_cases blank_email_lines [OF assms(1)]
        blank_email_lines [OF assms(2)] split: option.splits)

lemma blank_disclosure:
  "map blank_order (check_information_disclosure ord response)
     = map blank_order (check_information_disclosure ord' response)"
  by (simp add: check_information_disclosure_def Let_def split: option.splits)

lemma blank_main:
  assumes "valid_order ord" and "valid_order ord'"
  shows "map blank_order (fst (main ord typed e)) = map blank_order (fst (main ord' typed e))"
  using analyze_html_content_outcome [of ord "check_bracketed_host e" _ ord']
  by (simp add: main_cases blank_analyze [OF assms] blank_disclosure [of ord _ ord']
        split: outcome.splits)

lemma outcome_main: "snd (main ord typed e) = snd (main ord' typed e)"
  using analyze_html_content_outcome [of ord "check_bracketed_host e" _ ord']
  by (simp add: main_cases split: outcome.splits)

text \<open>email notes\<close>

lemma email_notes_Nil [simp]: "email_notes [] = []"
  by (simp add: email_notes_def)

lemma email_notes_append [simp]: "email_notes (a @ b) = email_notes a @ email_notes b"
  by (simp add: email_notes_def)

lemma email_notes_Cons:
  "email_notes (ev # tr) = (case ev of Email x \<Rightarrow> [x] | _ \<Rightarrow> []) @ email_notes tr"
  by (simp add: email_notes_def)

lemma email_notes_none: "(\<And>ev. ev \<in> set tr \<Longrightarrow> \<forall>x. ev \<noteq> Email x) \<Longrightarrow> email_notes tr = []"
  by (induction tr) (auto simp: email_notes_Cons split: event.splits)

lemma email_notes_emails [simp]: "email_notes (map Email xs) = xs"
  by (induction xs) (simp_all add: email_notes_Cons)

lemma email_notes_ssl: "email_notes (fst (check_ssl_tls url e)) = []"
  by (rule email_notes_none)
     (auto simp: check_ssl_tls_def Let_def split: if_splits probe.splits outcome.splits)

lemma header_lines_trace:
  "header_lines r =
     (let present = concat (map (\<lambda>(h, d). case header r h of
                       Some v \<Rightarrow> [PresentHeader h (take 50 v)] | None \<Rightarrow> []) security_headers);
          missing = map (\<lambda>(h, d). MissingHeader h d)
                      (filter (\<lambda>(h, d). header r h = None) security_headers)
      in (if present \<noteq> [] then PresentHeading # present else [])
         @ (if missing \<noteq> [] then MissingHeading # missing else [])
         @ cookie_lines r)"
proof -
  obtain present missing where c: "classify_headers r security_headers ([], []) = (present, missing)"
    by (cases "classify_headers r security_headers ([], [])")
  from c classify_headers_present [of r security_headers "[]" "[]"]
    classify_headers_missing [of r security_headers "[]" "[]"]
  show ?thesis
    by (simp add: header_lines_def Let_def)
qed

lemma email_notes_headers: "email_notes (fst (check_security_headers e)) = []"
  by (rule email_notes_none)
     (auto simp: check_security_headers_def header_lines_trace cookie_lines_def Let_def
        split: if_splits probe.splits option.splits)

lemma email_notes_files: "email_notes (check_common_files e) = []"
  by (rule email_notes_none) (auto simp: check_common_files_trace split: if_splits)

lemma email_notes_disclosure: "email_notes (check_information_disclosure ord response) = []"
  by (rule email_notes_none)
     (auto simp: check_information_disclosure_def Let_def split: if_splits option.splits)

lemma email_notes_recommendations: "email_notes generate_recommendations = []"
  by (rule email_notes_none) (auto simp: generate_recommendations_def)

lemma email_notes_comment_lines: "email_notes (comment_lines html) = []"
  by (rule email_notes_none)
     (auto simp: comment_lines_def Let_def comment_line_def split: if_splits)

lemma email_notes_inline: "email_notes (inline_script_lines html) = []"
  by (rule email_notes_none) (auto simp: inline_script_lines_def Let_def split: if_splits)

lemma email_notes_external: "email_notes (fst (external_script_lines check_host html)) = []"
proof -
  have "email_notes (fst (external_script_loop check_host scripts)) = []" for scripts
    by (induction scripts)
       (simp_all add: email_notes_Cons external_script_line_def split: outcome.splits)
  then show ?thesis
    by (simp add: external_script_lines_def Let_def email_notes_Cons)
qed

lemma email_notes_form_line: "email_notes (form_line iform) = []"
  by (simp add: form_line_def Let_def email_notes_Cons split: option.splits)

lemma email_notes_forms: "email_notes (form_lines html) = []"
proof -
  have "email_notes (concat (map form_line xs)) = []" for xs
    by (induction xs) (simp_all add: email_notes_form_line)
  then show ?thesis
    by (simp add: form_lines_def Let_def email_notes_Cons)
qed

lemma email_notes_secrets: "email_notes (secret_lines html) = []"
  by (rule email_notes_none) (auto simp: secret_lines_def Let_def split: if_splits)

lemma email_notes_email_lines:
  "email_notes (email_lines ord html) =
     (if emails_of None html \<noteq> [] then take 5 (ord (emails_of None html)) else [])"
  by (simp add: email_lines_def Let_def email_notes_Cons)

lemma email_notes_analyze:
  "email_notes (fst (analyze_html_content ord check_host response)) =
     (case response of
        None \<Rightarrow> []
      | Some r \<Rightarrow>
          if ok r \<and> scripts_parse check_host (body r) \<and> emails_of None (body r) \<noteq> []
          then take 5 (ord (emails_of None (body r)))
          else [])"
  by (simp add: analyze_html_content_cases email_notes_Cons email_notes_comment_lines
        email_notes_inline email_notes_external email_notes_forms email_notes_secrets
        email_notes_email_lines split: option.splits)

lemma email_notes_main:
  "email_notes (fst (main ord typed e)) =
     (case snd (check_ssl_tls (target_url typed) e) of
        Raises x \<Rightarrow> []
      | Returns u \<Rightarrow>
          (case snd (check_security_headers e) of
             Raises x \<Rightarrow> []
           | Returns response \<Rightarrow>
               email_notes (fst (analyze_html_content ord (check_bracketed_host e) response))))"
  by (simp add: main_cases email_notes_Cons email_notes_ssl email_notes_headers
        email_notes_files email_notes_disclosure email_notes_recommendations
        split: outcome.splits)

lemma returned_response:
  "snd (check_security_headers e) = Returns (Some r) \<Longrightarrow> primary_get e = Response r"
  by (auto simp: check_security_headers_def Let_def split: probe.splits if_splits)

lemma email_notes_props:
  assumes "valid_order ord"
  shows "distinct (email_notes (fst (main ord typed e)))
       \<and> length (email_notes (fst (main ord typed e))) \<le> 5
       \<and> (\<forall>x \<in> set (email_notes (fst (main ord typed e))).
             \<exists>r. primary_get e = Response r \<and> x \<in> set (emails_of None (body r)))"
proof -
  have d: "distinct (ord xs)" and s: "set (ord xs) = set xs" for xs
    using assms by (simp_all add: valid_order_def)
  show ?thesis
  proof (cases "email_notes (fst (main ord typed e)) = []")
    case True
    then show ?thesis by simp
  next
    case False
    then obtain response where r: "snd (check_security_headers e) = Returns response"
      and n: "email_notes (fst (main ord typed e))
                = email_notes (fst (analyze_html_content ord (check_bracketed_host e) response))"
      by (auto simp: email_notes_main split: outcome.splits)
    from False n obtain r' where r': "response = Some r'"
      and t: "email_notes (fst (main ord typed e)) = take 5 (ord (emails_of None (body r')))"
      by (auto simp: email_notes_analyze split: option.splits if_splits)
    from r r' have p: "primary_get e = Response r'" by (simp add: returned_response)
    have "x \<in> set (emails_of None (body r'))" if "x \<in> set (take 5 (ord (emails_of None (body r'))))"
      for x
      using in_set_takeD [OF that] s by simp
    with t p d show ?thesis by (auto simp: distinct_take)
  qed
qed

lemma email_notes_length:
  assumes "valid_order ord" and "valid_order ord'"
  shows "length (email_notes (fst (main ord typed e)))
       = length (email_notes (fst (main ord' typed e)))"
  by (simp add: email_notes_main email_notes_analyze valid_order_length [OF assms(1)]
        valid_order_length [OF assms(2)] split: outcome.splits option.splits)

lemma findings_not_disclosure:
  "filter (\<lambda>f. category f \<noteq> InfoDisclosure) (findings (check_information_disclosure ord response)) = []"
  by (simp add: findings_check_information_disclosure split: option.splits)

text \<open>
  C9, as the code has it. The script passes the addresses through a set, so which of them
  it prints, and in which order, follows the iteration order of the set; the same holds
  for the version numbers. For any two iteration orders the run ends the same way and
  prints the same lines at the same places, but for the addresses in the e-mail lines
  and the numbers in the version line; the findings other than \<open>InfoDisclosure\<close> are
  the same. The addresses printed are distinct, at most five, as many in one run as in the
  other, and each of them occurs in the page.
\<close>

theorem report_up_to_set_order:
  assumes "valid_order ord" and "valid_order ord'"
  shows "snd (main ord typed e) = snd (main ord' typed e)
       \<and> map blank_order (fst (main ord typed e)) = map blank_order (fst (main ord' typed e))
       \<and> filter (\<lambda>f. category f \<noteq> InfoDisclosure) (findings (fst (main ord typed e)))
           = filter (\<lambda>f. category f \<noteq> InfoDisclosure) (findings (fst (main ord' typed e)))
       \<and> distinct (email_notes (fst (main ord typed e)))
       \<and> length (email_notes (fst (main ord typed e))) \<le> 5
       \<and> length (email_notes (fst (main ord typed e)))
           = length (email_notes (fst (main ord' typed e)))
       \<and> (\<forall>x \<in> set (email_notes (fst (main ord typed e))).
             \<exists>r. primary_get e = Response r \<and> x \<in> set (emails_of None (body r)))"
proof -
  have f: "filter (\<lambda>f. category f \<noteq> InfoDisclosure) (findings (fst (main ord typed e)))
           = filter (\<lambda>f. category f \<noteq> InfoDisclosure) (findings (fst (main ord' typed e)))"
    using analyze_html_content_outcome [of ord "check_bracketed_host e" _ ord']
    by (simp add: main_cases findings_Cons findings_generate_recommendations
          findings_analyze_html_content findings_not_disclosure split: outcome.splits)
  from outcome_main [of ord typed e ord'] blank_main [OF assms] f
    email_notes_props [OF assms(1), of typed e] email_notes_length [OF assms, of typed e]
  show ?thesis
    by blast
qed

theorem report_up_to_set_order_witness:
  "valid_order remdups \<and> valid_order (rev \<circ> remdups)
   \<and> snd (main remdups ''https://example.test'' two_emails_env)
       = snd (main (rev \<circ> remdups) ''https://example.test'' two_emails_env)
   \<and> map blank_order (fst (main remdups ''https://example.test'' two_emails_env))
       = map blank_order (fst (main (rev \<circ> remdups) ''https://example.test'' two_emails_env))
   \<and> distinct (email_notes (fst (main remdups ''https://example.test'' two_emails_env)))
   \<and> length (email_notes (fst (main remdups ''https://example.test'' two_emails_env))) \<le> 5
   \<and> length (email_notes (fst (main remdups ''https://example.test'' two_emails_env)))
       = length (email_notes (fst (main (rev \<circ> remdups) ''https://example.test'' two_emails_env)))"
proof -
  have 1: "valid_order remdups" and 2: "valid_order (rev \<circ> remdups)"
    by (simp_all add: valid_order_def)
  from report_up_to_set_order [OF 1 2, of "''https://example.test''" two_emails_env] 1 2
  show ?thesis by blast
qed

text \<open>
  The claim has the same output in any two runs, with the first five addresses in the
  order in which they appear. Two iteration orders of the set of the two addresses of a
  page give two different outputs, one of them with the addresses in the reverse of the
  order in which they appear.
\<close>

lemma two_emails_notes:
  assumes "valid_order ord"
  shows "email_notes (fst (main ord ''https://example.test'' two_emails_env))
       = ord [''a@x.io'', ''b@y.io'']"
proof -
  have u: "target_url ''https://example.test'' = ''https://example.test''"
    by code_simp
  have 1: "snd (check_ssl_tls ''https://example.test'' two_emails_env) = Returns ()"
    by code_simp
  have 2: "snd (check_security_headers two_emails_env) = Returns (Some two_emails_page)"
    by (simp add: check_security_headers_def two_emails_env_def)
  have 3: "emails_of None (body two_emails_page) = [''a@x.io'', ''b@y.io'']"
    by code_simp
  have 4: "ok two_emails_page"
    by (simp add: ok_def two_emails_page_def)
  have "external_scripts_of (body two_emails_page) = []"
    by code_simp
  then have 5: "scripts_parse check_host (body two_emails_page)" for check_host
    by (simp add: scripts_parse_def)
  have "length (ord [''a@x.io'', ''b@y.io'']) = 2"
    by (simp add: valid_order_length [OF assms])
  then show ?thesis
    by (simp add: email_notes_main u 1 2 3 4 5 email_notes_analyze)
qed

theorem report_order_counterexample:
  "valid_order remdups \<and> valid_order (rev \<circ> remdups)
   \<and> emails_of None (body two_emails_page) = [''a@x.io'', ''b@y.io'']
   \<and> email_notes (fst (main remdups ''https://example.test'' two_emails_env))
       = [''a@x.io'', ''b@y.io'']
   \<and> email_notes (fst (main (rev \<circ> remdups) ''https://example.test'' two_emails_env))
       = [''b@y.io'', ''a@x.io'']
   \<and> fst (main remdups ''https://example.test'' two_emails_env)
       \<noteq> fst (main (rev \<circ> remdups) ''https://example.test'' two_emails_env)"
proof -
  have 1: "valid_order remdups" and 2: "valid_order (rev \<circ> remdups)"
    by (simp_all add: valid_order_def)
  have 3: "emails_of None (body two_emails_page) = [''a@x.io'', ''b@y.io'']"
    by code_simp
  have 4: "email_notes (fst (main remdups ''https://example.test'' two_emails_env))
       = [''a@x.io'', ''b@y.io'']"
    by (simp add: two_emails_notes [OF 1])
  have 5: "email_notes (fst (main (rev \<circ> remdups) ''https://example.test'' two_emails_env))
       = [''b@y.io'', ''a@x.io'']"
    by (simp add: two_emails_notes [OF 2])
  from 4 5 have "fst (main remdups ''https://example.test'' two_emails_env)
       \<noteq> fst (main (rev \<circ> remdups) ''https://example.test'' two_emails_env)"
    by auto
  with 1 2 3 4 5 show ?thesis by blast
qed

end
